theory Spec2Isabelle
  imports Main "HOL-Library.Word"
begin

unbundle bit_operations_syntax

section \<open>Traffic light controller on memory-mapped GPIO registers\<close>

text \<open>
  A shallow embedding of \<^verbatim>\<open>TrafficSignal.c\<close>. The program maps one page of GPIO
  registers, configures three output pins and one input pin, runs a scripted sequence of
  register writes and sleeps, and switches the LEDs off.

  The mapped block \<^verbatim>\<open>volatile unsigned *gpio\<close> is a function from word offsets to
  32-bit words. Every volatile access and every call of \<^verbatim>\<open>sleep\<close> or
  \<^verbatim>\<open>usleep\<close> is appended, in program order, to a trace kept in the state. The level
  register \<^verbatim>\<open>GPLEV0\<close> is driven by the outside world: its successive reads are given
  by an input sequence, indexed by the number of reads made so far. Text printed with
  \<^verbatim>\<open>printf\<close> has no influence on registers, timing or the exit status and is left out.
  Register words are 32-bit machine words; sleep arguments are integers (seconds for
  \<^verbatim>\<open>sleep\<close>, microseconds for \<^verbatim>\<open>usleep\<close>).
\<close>

subsection \<open>Constants of the source\<close>

type_synonym u32 = "32 word"

definition RED_LED :: nat where "RED_LED = 10"
definition YELLOW_LED :: nat where "YELLOW_LED = 11"
definition GREEN_LED :: nat where "GREEN_LED = 13"
definition BUTTON :: nat where "BUTTON = 26"

definition RED_DURATION :: int where "RED_DURATION = 3"
definition RED_YELLOW_DURATION :: int where "RED_YELLOW_DURATION = 2"
definition GREEN_DURATION :: int where "GREEN_DURATION = 5"
definition YELLOW_BLINK_COUNT :: int where "YELLOW_BLINK_COUNT = 3"
definition YELLOW_BLINK_DELAY :: int where "YELLOW_BLINK_DELAY = 500000"

definition GPFSEL0 :: nat where "GPFSEL0 = 0"
definition GPFSEL1 :: nat where "GPFSEL1 = 1"
definition GPFSEL2 :: nat where "GPFSEL2 = 2"
definition GPSET0 :: nat where "GPSET0 = 7"
definition GPCLR0 :: nat where "GPCLR0 = 10"
definition GPLEV0 :: nat where "GPLEV0 = 13"

definition PIN10_MASK :: u32 where "PIN10_MASK = 0b10000000000"
definition PIN11_MASK :: u32 where "PIN11_MASK = 0b100000000000"
definition PIN13_MASK :: u32 where "PIN13_MASK = 0b10000000000000"
definition PIN26_MASK :: u32 where "PIN26_MASK = 0b100000000000000000000000000"

subsection \<open>Machine state and primitive effects\<close>

datatype event = Read nat | Write nat u32 | Sleep int | Usleep int

record machine =
  regs :: "nat \<Rightarrow> u32"
  polls :: nat
  trace :: "event list"

text \<open>\<^verbatim>\<open>*(gpio + off) = v\<close>\<close>

definition reg_write :: "nat \<Rightarrow> u32 \<Rightarrow> machine \<Rightarrow> machine" where
  "reg_write off v m = m\<lparr>regs := (regs m)(off := v), trace := trace m @ [Write off v]\<rparr>"

text \<open>\<^verbatim>\<open>*(gpio + off)\<close> for a register that holds what was last stored in it.\<close>

definition reg_read :: "nat \<Rightarrow> machine \<Rightarrow> u32 \<times> machine" where
  "reg_read off m = (regs m off, m\<lparr>trace := trace m @ [Read off]\<rparr>)"

text \<open>\<^verbatim>\<open>*(gpio + GPLEV0)\<close>: the next word of the input sequence.\<close>

definition lev_read :: "(nat \<Rightarrow> u32) \<Rightarrow> machine \<Rightarrow> u32 \<times> machine" where
  "lev_read lev m =
     (lev (polls m), m\<lparr>polls := Suc (polls m), trace := trace m @ [Read GPLEV0]\<rparr>)"

definition sleep :: "int \<Rightarrow> machine \<Rightarrow> machine" where
  "sleep seconds m = m\<lparr>trace := trace m @ [Sleep seconds]\<rparr>"

definition usleep :: "int \<Rightarrow> machine \<Rightarrow> machine" where
  "usleep usec m = m\<lparr>trace := trace m @ [Usleep usec]\<rparr>"

subsection \<open>Register mapping\<close>

text \<open>
  What the operating system answers: the descriptor returned by \<^verbatim>\<open>open\<close> (negative
  on failure), whether \<^verbatim>\<open>mmap\<close> returned \<^verbatim>\<open>MAP_FAILED\<close>, the contents of the
  register page at the moment it is mapped, and the words that successive reads of the
  level register will see.
\<close>

record env =
  open_result :: int
  mmap_failed :: bool
  device :: "nat \<Rightarrow> u32"
  levels :: "nat \<Rightarrow> u32"

definition setup_gpio :: "env \<Rightarrow> int" where
  "setup_gpio e =
     (if open_result e < 0 then - 1
      else if mmap_failed e then - 1
      else 0)"

subsection \<open>Pin configuration and LED helpers\<close>

definition init_gpio :: "machine \<Rightarrow> machine" where
  "init_gpio m =
     (let (current_val, m) = reg_read GPFSEL1 m;
          current_val = current_val AND 0b11111111111111111111000000000000;
          current_val = current_val OR 0b00000000000000000000001001001001;
          m = reg_write GPFSEL1 current_val m;
          (current_val, m) = reg_read GPFSEL2 m;
          current_val = current_val AND 0b11111111111000111111111111111111;
          m = reg_write GPFSEL2 current_val m;
          m = reg_write GPCLR0 PIN13_MASK m;
          m = reg_write GPCLR0 PIN11_MASK m
      in reg_write GPCLR0 PIN10_MASK m)"

definition red_on :: "machine \<Rightarrow> machine" where
  "red_on m = reg_write GPSET0 PIN10_MASK m"

definition red_off :: "machine \<Rightarrow> machine" where
  "red_off m = reg_write GPCLR0 PIN10_MASK m"

definition yellow_on :: "machine \<Rightarrow> machine" where
  "yellow_on m = reg_write GPSET0 PIN11_MASK m"

definition yellow_off :: "machine \<Rightarrow> machine" where
  "yellow_off m = reg_write GPCLR0 PIN11_MASK m"

definition green_on :: "machine \<Rightarrow> machine" where
  "green_on m = reg_write GPSET0 PIN13_MASK m"

definition green_off :: "machine \<Rightarrow> machine" where
  "green_off m = reg_write GPCLR0 PIN13_MASK m"

subsection \<open>Button\<close>

text \<open>The C function returns the \<^verbatim>\<open>int\<close> value of the comparison, 1 or 0.\<close>

definition button_pressed :: "(nat \<Rightarrow> u32) \<Rightarrow> machine \<Rightarrow> int \<times> machine" where
  "button_pressed lev m =
     (let (level, m) = lev_read lev m
      in (if level AND PIN26_MASK = 0 then 1 else 0, m))"

text \<open>
  The \<^verbatim>\<open>for\<close> loop of \<^verbatim>\<open>wait_for_button_or_timeout\<close>, with the loop bound
  \<^verbatim>\<open>timeout_seconds * 10\<close> and the counter \<^verbatim>\<open>i\<close> as arguments. Each
  iteration calls \<^verbatim>\<open>button_pressed\<close> once: the first component of its result is
  the value the call returns, the second the state after the read. The
  \<^verbatim>\<open>return\<close> inside the loop leaves the function. The counter and the bound are
  C \<^verbatim>\<open>int\<close>s, modelled by unbounded integers; the product
  \<^verbatim>\<open>timeout_seconds * 10\<close> is the only arithmetic that could leave the range of
  \<^verbatim>\<open>int\<close>, and the statement about the wait assumes that it does not.
\<close>

function wait_loop :: "(nat \<Rightarrow> u32) \<Rightarrow> int \<Rightarrow> int \<Rightarrow> machine \<Rightarrow> machine" where
  "wait_loop lev bound i m =
     (if i < bound then
        (if fst (button_pressed lev m) \<noteq> 0
         then usleep 300000 (snd (button_pressed lev m))
         else wait_loop lev bound (i + 1) (usleep 100000 (snd (button_pressed lev m))))
      else m)"
  by pat_completeness auto
termination
  by (relation "measure (\<lambda>(lev, bound, i, m). nat (bound - i))") auto

declare wait_loop.simps [simp del]

definition wait_for_button_or_timeout :: "(nat \<Rightarrow> u32) \<Rightarrow> int \<Rightarrow> machine \<Rightarrow> machine" where
  "wait_for_button_or_timeout lev timeout_seconds m = wait_loop lev (timeout_seconds * 10) 0 m"

subsection \<open>The sequence\<close>

text \<open>
  \<^verbatim>\<open>traffic_light_sequence\<close> is straight-line code in seven commented blocks. Each
  block is a definition of its own, named after its comment.
\<close>

definition phase1 :: "machine \<Rightarrow> machine" where
  "phase1 m =
     (let m = reg_write GPSET0 PIN10_MASK m;
          m = reg_write GPCLR0 PIN11_MASK m;
          m = reg_write GPCLR0 PIN13_MASK m
      in sleep RED_DURATION m)"

definition phase2 :: "machine \<Rightarrow> machine" where
  "phase2 m =
     (let m = reg_write GPSET0 PIN10_MASK m;
          m = reg_write GPSET0 PIN11_MASK m;
          m = reg_write GPCLR0 PIN13_MASK m
      in sleep RED_YELLOW_DURATION m)"

definition phase3 :: "machine \<Rightarrow> machine" where
  "phase3 m =
     (let m = reg_write GPCLR0 PIN10_MASK m;
          m = reg_write GPCLR0 PIN11_MASK m;
          m = reg_write GPSET0 PIN13_MASK m
      in sleep GREEN_DURATION m)"

definition phase4 :: "(nat \<Rightarrow> u32) \<Rightarrow> machine \<Rightarrow> machine" where
  "phase4 lev m =
     (let m = reg_write GPCLR0 PIN10_MASK m;
          m = reg_write GPCLR0 PIN11_MASK m;
          m = reg_write GPSET0 PIN13_MASK m
      in wait_for_button_or_timeout lev 5 m)"

definition phase5 :: "machine \<Rightarrow> machine" where
  "phase5 m =
     (let m = reg_write GPCLR0 PIN10_MASK m;
          m = reg_write GPCLR0 PIN11_MASK m;
          m = reg_write GPSET0 PIN13_MASK m
      in sleep 2 m)"

function blink_loop :: "int \<Rightarrow> machine \<Rightarrow> machine" where
  "blink_loop i m =
     (if i < YELLOW_BLINK_COUNT then
        (let m = reg_write GPSET0 PIN11_MASK m;
             m = usleep YELLOW_BLINK_DELAY m;
             m = reg_write GPCLR0 PIN11_MASK m;
             m = usleep YELLOW_BLINK_DELAY m
         in blink_loop (i + 1) m)
      else m)"
  by pat_completeness auto
termination
  by (relation "measure (\<lambda>(i, m). nat (YELLOW_BLINK_COUNT - i))") auto

declare blink_loop.simps [simp del]

definition phase6 :: "machine \<Rightarrow> machine" where
  "phase6 m =
     (let m = reg_write GPCLR0 PIN10_MASK m;
          m = reg_write GPCLR0 PIN13_MASK m
      in blink_loop 0 m)"

definition phase7 :: "machine \<Rightarrow> machine" where
  "phase7 m =
     (let m = reg_write GPSET0 PIN10_MASK m;
          m = reg_write GPCLR0 PIN11_MASK m;
          m = reg_write GPCLR0 PIN13_MASK m
      in sleep RED_DURATION m)"

definition traffic_light_sequence :: "(nat \<Rightarrow> u32) \<Rightarrow> machine \<Rightarrow> machine" where
  "traffic_light_sequence lev m =
     (let m = phase1 m;
          m = phase2 m;
          m = phase3 m;
          m = phase4 lev m;
          m = phase5 m;
          m = phase6 m
      in phase7 m)"

subsection \<open>The program\<close>

text \<open>The state in which \<^verbatim>\<open>main\<close> starts: nothing read, nothing written.\<close>

definition boot :: "env \<Rightarrow> machine" where
  "boot e = \<lparr>regs = device e, polls = 0, trace = []\<rparr>"

definition main :: "int \<Rightarrow> string list \<Rightarrow> env \<Rightarrow> int \<times> machine" where
  "main argc argv e =
     (if setup_gpio e = - 1 then (1, boot e)
      else
        (let m = init_gpio (boot e);
             m = traffic_light_sequence (levels e) m;
             m = reg_write GPCLR0 PIN10_MASK m;
             m = reg_write GPCLR0 PIN11_MASK m;
             m = reg_write GPCLR0 PIN13_MASK m
         in (0, m)))"

subsection \<open>Reading a trace\<close>

text \<open>The events a step appends to the trace of the state it starts in.\<close>

definition emitted :: "(machine \<Rightarrow> machine) \<Rightarrow> machine \<Rightarrow> event list" where
  "emitted f m = drop (length (trace m)) (trace (f m))"

text \<open>Time spent, in microseconds: only \<^verbatim>\<open>sleep\<close> and \<^verbatim>\<open>usleep\<close> take time.\<close>

fun usecs :: "event \<Rightarrow> int" where
  "usecs (Sleep seconds) = seconds * 1000000"
| "usecs (Usleep usec) = usec"
| "usecs (Read off) = 0"
| "usecs (Write off v) = 0"

definition duration :: "event list \<Rightarrow> int" where
  "duration es = sum_list (map usecs es)"

fun is_write :: "event \<Rightarrow> bool" where
  "is_write (Write off v) = True"
| "is_write (Read off) = False"
| "is_write (Sleep seconds) = False"
| "is_write (Usleep usec) = False"

definition writes_of :: "event list \<Rightarrow> event list" where
  "writes_of es = filter is_write es"

text \<open>
  The function-select field of a pin inside its function-select word: three bits per
  pin, ten pins per word.
\<close>

definition fsel_field :: "nat \<Rightarrow> u32 \<Rightarrow> u32" where
  "fsel_field pin w = take_bit 3 (drop_bit (3 * (pin mod 10)) w)"

subsection \<open>What the pins do\<close>

text \<open>
  The register contract of the GPIO controller: a word written to \<^verbatim>\<open>GPSET0\<close> drives
  high the output pins whose bit is 1 in it, a word written to \<^verbatim>\<open>GPCLR0\<close> drives
  them low, and bits that are 0 leave their pin as it is. The first argument is the
  level of the output pins before the event.
\<close>

fun hw_step :: "u32 \<Rightarrow> event \<Rightarrow> u32" where
  "hw_step p (Write off v) =
     (if off = GPSET0 then p OR v
      else if off = GPCLR0 then p AND NOT v
      else p)"
| "hw_step p (Read off) = p"
| "hw_step p (Sleep seconds) = p"
| "hw_step p (Usleep usec) = p"

definition pin_levels :: "u32 \<Rightarrow> event list \<Rightarrow> u32" where
  "pin_levels p es = foldl hw_step p es"

subsection \<open>Phases and their documented LED combinations\<close>

text \<open>
  The LEDs that the comments and messages of each block name as lit: red in phases 1
  and 7, red and yellow in phase 2, green in phases 3 to 5, yellow (blinking) in
  phase 6. Before phase 1, \<^verbatim>\<open>init_gpio\<close> has switched all three off.
\<close>

definition documented :: "nat \<Rightarrow> u32" where
  "documented k =
     (if k = 1 then PIN10_MASK
      else if k = 2 then PIN10_MASK OR PIN11_MASK
      else if k = 3 then PIN13_MASK
      else if k = 4 then PIN13_MASK
      else if k = 5 then PIN13_MASK
      else if k = 6 then PIN11_MASK
      else if k = 7 then PIN10_MASK
      else 0)"

definition leds :: "u32 \<Rightarrow> u32" where
  "leds p = p AND (PIN10_MASK OR PIN11_MASK OR PIN13_MASK)"

definition at_most :: "u32 \<Rightarrow> u32 \<Rightarrow> bool" where
  "at_most allowed p \<longleftrightarrow> leds p AND NOT allowed = 0"

text \<open>The state in which phase 4 calls \<^verbatim>\<open>wait_for_button_or_timeout\<close>.\<close>

definition at_button_wait :: "machine \<Rightarrow> machine" where
  "at_button_wait m =
     reg_write GPSET0 PIN13_MASK
       (reg_write GPCLR0 PIN11_MASK
         (reg_write GPCLR0 PIN10_MASK (phase3 (phase2 (phase1 m)))))"

text \<open>The events of phase \<open>k\<close> in a run of the sequence that starts in \<open>m\<close>.\<close>

definition phase_events :: "(nat \<Rightarrow> u32) \<Rightarrow> machine \<Rightarrow> nat \<Rightarrow> event list" where
  "phase_events lev m k =
     (let m1 = phase1 m;
          m2 = phase2 m1;
          m3 = phase3 m2;
          m4 = phase4 lev m3;
          m5 = phase5 m4;
          m6 = phase6 m5
      in if k = 1 then emitted phase1 m
         else if k = 2 then emitted phase2 m1
         else if k = 3 then emitted phase3 m2
         else if k = 4 then emitted (phase4 lev) m3
         else if k = 5 then emitted phase5 m4
         else if k = 6 then emitted phase6 m5
         else if k = 7 then emitted phase7 m6
         else [])"

definition tagged :: "(nat \<Rightarrow> u32) \<Rightarrow> machine \<Rightarrow> (nat \<times> event) list" where
  "tagged lev m = concat (map (\<lambda>k. map (Pair k) (phase_events lev m k)) [1, 2, 3, 4, 5, 6, 7])"

text \<open>Each event with its phase and the pin levels right after it.\<close>

fun annotate :: "u32 \<Rightarrow> (nat \<times> event) list \<Rightarrow> (nat \<times> event \<times> u32) list" where
  "annotate p [] = []"
| "annotate p ((k, e) # xs) = (k, e, hw_step p e) # annotate (hw_step p e) xs"

definition timeline :: "(nat \<Rightarrow> u32) \<Rightarrow> machine \<Rightarrow> u32 \<Rightarrow> (nat \<times> event \<times> u32) list" where
  "timeline lev m p = annotate p (tagged lev m)"

fun within_phase :: "nat \<times> event \<times> u32 \<Rightarrow> bool" where
  "within_phase (k, e, p) = at_most (documented k) p"

fun within_phase_or_previous :: "nat \<times> event \<times> u32 \<Rightarrow> bool" where
  "within_phase_or_previous (k, e, p) =
     (at_most (documented k) p \<or> at_most (documented (k - 1)) p)"

text \<open>
  Whenever the program waits (sleeps or polls the button), the LEDs lit are within the
  documented combination of the phase, and are exactly that combination except in the
  blinking phase.
\<close>

fun settled :: "nat \<times> event \<times> u32 \<Rightarrow> bool" where
  "settled (k, e, p) =
     (is_write e \<or> (at_most (documented k) p \<and> (k = 6 \<or> leds p = documented k)))"

fun red_green_exclusive :: "nat \<times> event \<times> u32 \<Rightarrow> bool" where
  "red_green_exclusive (k, e, p) = (\<not> (bit p RED_LED \<and> bit p GREEN_LED))"

subsection \<open>Concrete inputs\<close>

definition blank :: machine where
  "blank = \<lparr>regs = (\<lambda>off. 0), polls = 0, trace = []\<rparr>"

definition never_pressed :: "nat \<Rightarrow> u32" where
  "never_pressed k = PIN26_MASK"

text \<open>The button reads released at the first \<open>n\<close> polls and pressed from then on.\<close>

definition pressed_from :: "nat \<Rightarrow> nat \<Rightarrow> u32" where
  "pressed_from n k = (if k < n then PIN26_MASK else 0)"

definition env_ok :: "(nat \<Rightarrow> u32) \<Rightarrow> env" where
  "env_ok lev = \<lparr>open_result = 3, mmap_failed = False, device = (\<lambda>off. 0), levels = lev\<rparr>"

definition env_no_open :: env where
  "env_no_open = \<lparr>open_result = - 1, mmap_failed = False, device = (\<lambda>off. 0), levels = never_pressed\<rparr>"

definition env_no_mmap :: env where
  "env_no_mmap = \<lparr>open_result = 3, mmap_failed = True, device = (\<lambda>off. 0), levels = never_pressed\<rparr>"

section \<open>Properties\<close>

lemmas mask_defs = PIN10_MASK_def PIN11_MASK_def PIN13_MASK_def PIN26_MASK_def
lemmas offset_defs = GPFSEL0_def GPFSEL1_def GPFSEL2_def GPSET0_def GPCLR0_def GPLEV0_def
lemmas pin_defs = RED_LED_def YELLOW_LED_def GREEN_LED_def BUTTON_def
lemmas prim_defs = reg_write_def reg_read_def lev_read_def sleep_def usleep_def

subsection \<open>The button test\<close>

lemma PIN26_MASK_push: "PIN26_MASK = push_bit 26 1"
  by (simp add: PIN26_MASK_def)

lemma test_PIN26: "(w AND PIN26_MASK = 0) = (\<not> bit w 26)"
  unfolding PIN26_MASK_push
  by (simp add: bit_iff_and_push_bit_not_eq_0 del: push_bit_numeral push_bit_of_1)

lemma button_pressed_snd:
  "snd (button_pressed lev m) = m\<lparr>polls := Suc (polls m), trace := trace m @ [Read GPLEV0]\<rparr>"
  by (simp add: button_pressed_def lev_read_def)

lemma button_pressed_fst:
  "fst (button_pressed lev m) = (if bit (lev (polls m)) 26 then 0 else 1)"
  by (simp add: button_pressed_def lev_read_def test_PIN26)

text \<open>
  Claim C7. \<^verbatim>\<open>button_pressed\<close> returns true (1) exactly when bit 26 of the level word
  it reads is 0, and false (0) exactly when that bit is 1, whatever the word: the test
  is \<^verbatim>\<open>(level & (1 << 26)) == 0\<close>, and \<^verbatim>\<open>PIN26_MASK\<close> is \<^verbatim>\<open>1 << 26\<close>.
\<close>

theorem button_pressed_active_low:
  "(fst (button_pressed lev m) = 1) = (\<not> bit (lev (polls m)) BUTTON)
   \<and> (fst (button_pressed lev m) = 0) = bit (lev (polls m)) BUTTON
   \<and> (fst (button_pressed lev m) = 1) = (lev (polls m) AND push_bit 26 1 = 0)
   \<and> PIN26_MASK = push_bit BUTTON 1"
  using test_PIN26 [of "lev (polls m)"]
  by (simp add: button_pressed_fst BUTTON_def PIN26_MASK_push del: push_bit_numeral push_bit_of_1)

subsection \<open>Pin configuration\<close>

lemma init_gpio_eq:
  "init_gpio m =
     m\<lparr>regs := (regs m)
          (GPFSEL1 := (regs m GPFSEL1 AND 0xFFFFF000) OR 0x249,
           GPFSEL2 := regs m GPFSEL2 AND 0xFFE3FFFF,
           GPCLR0 := PIN10_MASK),
       trace := trace m @
          [Read GPFSEL1, Write GPFSEL1 ((regs m GPFSEL1 AND 0xFFFFF000) OR 0x249),
           Read GPFSEL2, Write GPFSEL2 (regs m GPFSEL2 AND 0xFFE3FFFF),
           Write GPCLR0 PIN13_MASK, Write GPCLR0 PIN11_MASK, Write GPCLR0 PIN10_MASK]\<rparr>"
  by (simp add: init_gpio_def prim_defs offset_defs Let_def fun_upd_twist)

lemma fsel1_mask: "(0xFFFFF000 :: u32) = NOT (mask 12)"
  by (simp add: mask_eq_exp_minus_1)

lemma fsel1_bits: "(0x249 :: u32) = push_bit 0 1 OR push_bit 3 1 OR push_bit 6 1 OR push_bit 9 1"
  by simp

lemma fsel2_mask: "(0xFFE3FFFF :: u32) = NOT (push_bit 18 (mask 3))"
  by (simp add: mask_eq_exp_minus_1)

lemma bit_fsel1:
  "bit (((x::u32) AND 0xFFFFF000) OR 0x249) n \<longleftrightarrow>
     (if n < 12 then n \<in> {0, 3, 6, 9} else bit x n)"
  unfolding fsel1_mask fsel1_bits
  by (auto simp only: bit_or_iff bit_and_iff bit_not_iff bit_mask_iff bit_push_bit_iff
        bit_1_iff possible_bit_word dest: bit_imp_le_length)
     (auto split: if_splits dest: bit_imp_le_length)

lemma bit_fsel2:
  "bit ((x::u32) AND 0xFFE3FFFF) n \<longleftrightarrow> (n \<notin> {18, 19, 20} \<and> bit x n)"
  unfolding fsel2_mask
  by (auto simp only: bit_or_iff bit_and_iff bit_not_iff bit_mask_iff bit_push_bit_iff
        bit_1_iff possible_bit_word dest: bit_imp_le_length)

lemma init_gpio_GPFSEL1: "regs (init_gpio m) GPFSEL1 = (regs m GPFSEL1 AND 0xFFFFF000) OR 0x249"
  by (simp add: init_gpio_eq offset_defs)

lemma init_gpio_GPFSEL2: "regs (init_gpio m) GPFSEL2 = regs m GPFSEL2 AND 0xFFE3FFFF"
  by (simp add: init_gpio_eq offset_defs)

text \<open>
  What \<^verbatim>\<open>init_gpio\<close> does to the function-select words, for any initial contents:
  the fields of pins 10, 11 and 13 become 001 and the field of pin 26 becomes 000, but
  the field of pin 12 becomes 001 as well. Bits 12 to 31 of \<^verbatim>\<open>GPFSEL1\<close> and all bits
  of \<^verbatim>\<open>GPFSEL2\<close> other than 18 to 20 keep their values.
\<close>

lemma init_gpio_function_select:
  "fsel_field RED_LED (regs (init_gpio m) GPFSEL1) = 1
   \<and> fsel_field YELLOW_LED (regs (init_gpio m) GPFSEL1) = 1
   \<and> fsel_field GREEN_LED (regs (init_gpio m) GPFSEL1) = 1
   \<and> fsel_field BUTTON (regs (init_gpio m) GPFSEL2) = 0
   \<and> fsel_field 12 (regs (init_gpio m) GPFSEL1) = 1"
  unfolding init_gpio_GPFSEL1 init_gpio_GPFSEL2 fsel_field_def pin_defs
  by (intro conjI; rule bit_eqI)
     (auto simp add: bit_take_bit_iff bit_drop_bit_eq bit_fsel1 bit_fsel2 bit_1_iff)

lemma init_gpio_frame:
  "(12 \<le> n \<longrightarrow> bit (regs (init_gpio m) GPFSEL1) n = bit (regs m GPFSEL1) n)
   \<and> (n \<notin> {18, 19, 20} \<longrightarrow> bit (regs (init_gpio m) GPFSEL2) n = bit (regs m GPFSEL2) n)"
  unfolding init_gpio_GPFSEL1 init_gpio_GPFSEL2
  by (simp add: bit_fsel1 bit_fsel2)

text \<open>
  Claim C1 says that \<^verbatim>\<open>init_gpio\<close> leaves every bit outside the fields of pins 10,
  11, 13 and 26 unchanged, in particular the field of pin 12 (bits 6 to 8 of
  \<^verbatim>\<open>GPFSEL1\<close>). On a register block that holds zeros, where pin 12 is an input
  (field 000), the code leaves \<^verbatim>\<open>GPFSEL1\<close> at 001001001001: the field of pin 12 has
  become 001, an output.
\<close>

theorem init_gpio_pin12_field:
  "fsel_field 12 (regs blank GPFSEL1) = 0
   \<and> fsel_field 12 (regs (init_gpio blank) GPFSEL1) = 1
   \<and> regs (init_gpio blank) GPFSEL1 = 0b001001001001"
  by (simp add: init_gpio_GPFSEL1 blank_def fsel_field_def)

subsection \<open>Command-line arguments\<close>

text \<open>
  Claim C9. Two invocations of \<^verbatim>\<open>main\<close> that differ only in \<^verbatim>\<open>argc\<close> and
  \<^verbatim>\<open>argv\<close>, with the same outcome of opening and mapping the device, the same
  register contents and the same button levels, return the same exit code and leave the
  same trace of register accesses.
\<close>

theorem main_ignores_arguments:
  "main argc argv e = main argc' argv' e"
  by (simp add: main_def)


subsection \<open>Exit status\<close>

text \<open>
  Claim C5. \<^verbatim>\<open>main\<close> returns 1 whenever opening \<^verbatim>\<open>/dev/mem\<close> fails or
  \<^verbatim>\<open>mmap\<close> fails, and in such a run it makes no register access at all: the trace
  is empty and the register block is as it was. In every other run it returns 0.
\<close>

theorem main_exit_code:
  "(open_result e < 0 \<or> mmap_failed e \<longrightarrow>
      fst (main argc argv e) = 1
      \<and> trace (snd (main argc argv e)) = []
      \<and> regs (snd (main argc argv e)) = device e)
   \<and> (\<not> (open_result e < 0 \<or> mmap_failed e) \<longrightarrow> fst (main argc argv e) = 0)"
  by (simp add: main_def setup_gpio_def boot_def Let_def)

text \<open>The three kinds of run: open fails, mapping fails, both succeed.\<close>

theorem main_exit_code_witness:
  "open_result env_no_open < 0
   \<and> fst (main 1 [''traffic_lights''] env_no_open) = 1
   \<and> trace (snd (main 1 [''traffic_lights''] env_no_open)) = []
   \<and> mmap_failed env_no_mmap
   \<and> fst (main 1 [''traffic_lights''] env_no_mmap) = 1
   \<and> trace (snd (main 1 [''traffic_lights''] env_no_mmap)) = []
   \<and> \<not> (open_result (env_ok never_pressed) < 0 \<or> mmap_failed (env_ok never_pressed))
   \<and> fst (main 1 [''traffic_lights''] (env_ok never_pressed)) = 0"
  using main_exit_code [of env_no_open 1 "[''traffic_lights'']"]
        main_exit_code [of env_no_mmap 1 "[''traffic_lights'']"]
        main_exit_code [of "env_ok never_pressed" 1 "[''traffic_lights'']"]
  by (simp add: env_no_open_def env_no_mmap_def env_ok_def)

subsection \<open>The wait loop\<close>

lemma emitted_eq: "trace (f m) = trace m @ es \<Longrightarrow> emitted f m = es"
  by (simp add: emitted_def)

lemma duration_append: "duration (xs @ ys) = duration xs + duration ys"
  by (simp add: duration_def)

lemma duration_polls:
  "duration (concat (replicate n [Read GPLEV0, Usleep 100000])) = int n * 100000"
  by (induction n) (simp_all add: duration_def algebra_simps)

lemma count_polls:
  "count_list (concat (replicate n [Read GPLEV0, Usleep 100000])) (Read GPLEV0) = n"
  by (induction n) simp_all

lemma writes_of_append: "writes_of (xs @ ys) = writes_of xs @ writes_of ys"
  by (simp add: writes_of_def)

lemma writes_of_polls: "writes_of (concat (replicate n [Read GPLEV0, Usleep 100000])) = []"
  by (induction n) (simp_all add: writes_of_def)

lemma wait_loop_timeout:
  "\<forall>j < nat (bound - i). bit (lev (polls m + j)) 26 \<Longrightarrow>
   wait_loop lev bound i m =
     m\<lparr>polls := polls m + nat (bound - i),
       trace := trace m @ concat (replicate (nat (bound - i)) [Read GPLEV0, Usleep 100000])\<rparr>"
proof (induction "nat (bound - i)" arbitrary: i m)
  case 0
  then show ?case by (subst wait_loop.simps) simp
next
  case (Suc n)
  let ?m = "usleep 100000 (snd (button_pressed lev m))"
  from Suc.hyps(2) have lt: "i < bound" and n: "n = nat (bound - (i + 1))" by linarith+
  have p0: "bit (lev (polls m)) 26"
    using Suc.prems Suc.hyps(2) by (metis add.right_neutral zero_less_Suc)
  have pm: "polls ?m = Suc (polls m)" by (simp add: usleep_def button_pressed_snd)
  have "\<forall>j < nat (bound - (i + 1)). bit (lev (polls ?m + j)) 26"
  proof (intro allI impI)
    fix j assume "j < nat (bound - (i + 1))"
    then have "Suc j < nat (bound - i)" by linarith
    with Suc.prems have "bit (lev (polls m + Suc j)) 26" by blast
    then show "bit (lev (polls ?m + j)) 26" by (simp add: pm)
  qed
  from Suc.hyps(1)[OF n this]
  have "wait_loop lev bound (i + 1) ?m = ?m\<lparr>polls := polls ?m + nat (bound - (i + 1)),
       trace := trace ?m @ concat (replicate (nat (bound - (i + 1))) [Read GPLEV0, Usleep 100000])\<rparr>" .
  moreover have "wait_loop lev bound i m = wait_loop lev bound (i + 1) ?m"
    using lt p0 by (subst wait_loop.simps) (simp add: button_pressed_fst)
  moreover have "nat (bound - i) = Suc (nat (bound - (i + 1)))" using lt by linarith
  ultimately show ?case by (simp add: usleep_def button_pressed_snd)
qed

lemma wait_loop_press:
  "k < nat (bound - i) \<Longrightarrow> \<not> bit (lev (polls m + k)) 26 \<Longrightarrow>
   \<forall>j<k. bit (lev (polls m + j)) 26 \<Longrightarrow>
   wait_loop lev bound i m =
     m\<lparr>polls := polls m + Suc k,
       trace := trace m @ concat (replicate k [Read GPLEV0, Usleep 100000])
                  @ [Read GPLEV0, Usleep 300000]\<rparr>"
proof (induction k arbitrary: i m)
  case 0
  then have "i < bound" by linarith
  with 0 show ?case
    by (subst wait_loop.simps) (simp add: button_pressed_fst usleep_def button_pressed_snd)
next
  case (Suc k)
  let ?m = "usleep 100000 (snd (button_pressed lev m))"
  have pm: "polls ?m = Suc (polls m)" by (simp add: usleep_def button_pressed_snd)
  from Suc.prems(1) have lt: "i < bound" and k: "k < nat (bound - (i + 1))" by linarith+
  have p0: "bit (lev (polls m)) 26"
    using Suc.prems(3) by (metis add.right_neutral zero_less_Suc)
  have a: "\<not> bit (lev (polls ?m + k)) 26" using Suc.prems(2) by (simp add: pm)
  have b: "\<forall>j<k. bit (lev (polls ?m + j)) 26" using Suc.prems(3) by (auto simp add: pm)
  note Suc.IH[OF k a b]
  moreover have "wait_loop lev bound i m = wait_loop lev bound (i + 1) ?m"
    using lt p0 by (subst wait_loop.simps) (simp add: button_pressed_fst)
  ultimately show ?case by (simp add: usleep_def button_pressed_snd)
qed

text \<open>Every run of the loop is one of the two: no press seen, or a first press at poll \<open>k\<close>.\<close>

lemma wait_loop_cases:
  "wait_loop lev bound i m =
     m\<lparr>polls := polls m + nat (bound - i),
       trace := trace m @ concat (replicate (nat (bound - i)) [Read GPLEV0, Usleep 100000])\<rparr>
   \<or> (\<exists>k < nat (bound - i).
        wait_loop lev bound i m =
          m\<lparr>polls := polls m + Suc k,
            trace := trace m @ concat (replicate k [Read GPLEV0, Usleep 100000])
                       @ [Read GPLEV0, Usleep 300000]\<rparr>)"
proof (cases "\<forall>j < nat (bound - i). bit (lev (polls m + j)) 26")
  case True
  then show ?thesis by (simp add: wait_loop_timeout)
next
  case False
  then obtain j where j: "j < nat (bound - i)" "\<not> bit (lev (polls m + j)) 26" by blast
  define k where "k = (LEAST j. \<not> bit (lev (polls m + j)) 26)"
  have k1: "\<not> bit (lev (polls m + k)) 26" unfolding k_def using j(2) by (rule LeastI)
  have "k \<le> j" unfolding k_def using j(2) by (rule Least_le)
  with j(1) have k2: "k < nat (bound - i)" by simp
  have k3: "\<forall>j<k. bit (lev (polls m + j)) 26"
    unfolding k_def using not_less_Least by blast
  from wait_loop_press [OF k2 k1 k3] k2 show ?thesis by blast
qed

lemma wait_for_button_or_timeout_timeout:
  assumes "\<forall>j < nat (t * 10). bit (lev (polls m + j)) 26"
  shows "wait_for_button_or_timeout lev t m =
     m\<lparr>polls := polls m + nat (t * 10),
       trace := trace m @ concat (replicate (nat (t * 10)) [Read GPLEV0, Usleep 100000])\<rparr>"
  using wait_loop_timeout [of "t * 10" 0 lev m] assms
  by (simp add: wait_for_button_or_timeout_def)

lemma wait_for_button_or_timeout_press:
  assumes "k < nat (t * 10)" "\<not> bit (lev (polls m + k)) 26" "\<forall>j<k. bit (lev (polls m + j)) 26"
  shows "wait_for_button_or_timeout lev t m =
     m\<lparr>polls := polls m + Suc k,
       trace := trace m @ concat (replicate k [Read GPLEV0, Usleep 100000])
                  @ [Read GPLEV0, Usleep 300000]\<rparr>"
  using wait_loop_press [of k "t * 10" 0 lev m] assms
  by (simp add: wait_for_button_or_timeout_def)

lemma emitted_wait_timeout:
  assumes "\<forall>j < nat (t * 10). bit (lev (polls m + j)) BUTTON"
  shows "emitted (wait_for_button_or_timeout lev t) m
           = concat (replicate (nat (t * 10)) [Read GPLEV0, Usleep 100000])"
proof -
  from assms have "wait_for_button_or_timeout lev t m =
     m\<lparr>polls := polls m + nat (t * 10),
       trace := trace m @ concat (replicate (nat (t * 10)) [Read GPLEV0, Usleep 100000])\<rparr>"
    by (intro wait_for_button_or_timeout_timeout) (simp add: BUTTON_def)
  then show ?thesis by (intro emitted_eq) simp
qed

lemma emitted_wait_press:
  assumes "k < nat (t * 10)" and "\<not> bit (lev (polls m + k)) BUTTON"
    and "\<forall>j<k. bit (lev (polls m + j)) BUTTON"
  shows "emitted (wait_for_button_or_timeout lev t) m
           = concat (replicate k [Read GPLEV0, Usleep 100000]) @ [Read GPLEV0, Usleep 300000]"
proof -
  from assms have "wait_for_button_or_timeout lev t m =
     m\<lparr>polls := polls m + Suc k,
       trace := trace m @ concat (replicate k [Read GPLEV0, Usleep 100000])
                  @ [Read GPLEV0, Usleep 300000]\<rparr>"
    by (intro wait_for_button_or_timeout_press) (simp_all add: BUTTON_def)
  then show ?thesis by (intro emitted_eq) simp
qed

lemma duration_wait_timeout:
  assumes "0 \<le> t" and "\<forall>j < nat (t * 10). bit (lev (polls m + j)) BUTTON"
  shows "duration (emitted (wait_for_button_or_timeout lev t) m) = t * 1000000"
  using assms(1) by (simp add: emitted_wait_timeout [OF assms(2)] duration_polls)

lemma duration_wait_press:
  assumes "k < nat (t * 10)" and "\<not> bit (lev (polls m + k)) BUTTON"
    and "\<forall>j<k. bit (lev (polls m + j)) BUTTON"
  shows "duration (emitted (wait_for_button_or_timeout lev t) m) = int k * 100000 + 300000"
  by (simp add: emitted_wait_press [OF assms] duration_append duration_polls)
     (simp add: duration_def)

lemma never_pressed_bit: "bit (never_pressed j) BUTTON"
  by (simp add: never_pressed_def BUTTON_def PIN26_MASK_push bit_push_bit_iff
        del: push_bit_numeral push_bit_of_1)

lemma pressed_from_bit: "bit (pressed_from n j) BUTTON \<longleftrightarrow> j < n"
  by (simp add: pressed_from_def BUTTON_def PIN26_MASK_push bit_push_bit_iff
        del: push_bit_numeral push_bit_of_1)

text \<open>
  Claim C3, amended. \<^verbatim>\<open>wait_for_button_or_timeout(t)\<close>, for a timeout \<open>t \<ge> 0\<close>
  whose product with 10 fits a C \<^verbatim>\<open>int\<close>, polls the level register and sleeps 0.1 s
  after each poll that reads released. If bit 26 reads high at all \<open>10 t\<close> polls, it
  returns after exactly \<open>10 t\<close> polls and \<open>t\<close> seconds. If the first poll that reads
  low is poll number \<open>k\<close> (counting from 0, \<open>k < 10 t\<close>), it returns after \<open>k + 1\<close>
  polls, the \<open>k\<close> sleeps of 0.1 s made so far and one settle delay of 0.3 s. That is
  shorter than the full timeout exactly when the press is seen before the last three
  polls (\<open>k + 3 < 10 t\<close>); a press seen at one of the last three polls takes as long as
  the timeout or longer.
\<close>

theorem wait_for_button_or_timeout_polls:
  assumes "0 \<le> t" and "t * 10 \<le> 2147483647"
  shows
  "((\<forall>j < nat (t * 10). bit (lev (polls m + j)) BUTTON) \<longrightarrow>
      emitted (wait_for_button_or_timeout lev t) m
        = concat (replicate (nat (t * 10)) [Read GPLEV0, Usleep 100000])
      \<and> int (count_list (emitted (wait_for_button_or_timeout lev t) m) (Read GPLEV0)) = t * 10
      \<and> duration (emitted (wait_for_button_or_timeout lev t) m) = t * 1000000
      \<and> polls (wait_for_button_or_timeout lev t m) = polls m + nat (t * 10)
      \<and> regs (wait_for_button_or_timeout lev t m) = regs m)
   \<and> (k < nat (t * 10) \<and> \<not> bit (lev (polls m + k)) BUTTON
        \<and> (\<forall>j<k. bit (lev (polls m + j)) BUTTON) \<longrightarrow>
      emitted (wait_for_button_or_timeout lev t) m
        = concat (replicate k [Read GPLEV0, Usleep 100000]) @ [Read GPLEV0, Usleep 300000]
      \<and> count_list (emitted (wait_for_button_or_timeout lev t) m) (Read GPLEV0) = k + 1
      \<and> duration (emitted (wait_for_button_or_timeout lev t) m) = int k * 100000 + 300000
      \<and> (duration (emitted (wait_for_button_or_timeout lev t) m) < t * 1000000)
          = (int k + 3 < t * 10)
      \<and> polls (wait_for_button_or_timeout lev t m) = polls m + k + 1
      \<and> regs (wait_for_button_or_timeout lev t m) = regs m)"
proof (intro conjI impI)
  assume a: "\<forall>j < nat (t * 10). bit (lev (polls m + j)) BUTTON"
  then have eq: "wait_for_button_or_timeout lev t m =
     m\<lparr>polls := polls m + nat (t * 10),
       trace := trace m @ concat (replicate (nat (t * 10)) [Read GPLEV0, Usleep 100000])\<rparr>"
    by (intro wait_for_button_or_timeout_timeout) (simp add: BUTTON_def)
  then show e: "emitted (wait_for_button_or_timeout lev t) m
        = concat (replicate (nat (t * 10)) [Read GPLEV0, Usleep 100000])"
    by (intro emitted_eq) simp
  show "int (count_list (emitted (wait_for_button_or_timeout lev t) m) (Read GPLEV0)) = t * 10"
    using assms(1) by (simp add: e count_polls)
  show "duration (emitted (wait_for_button_or_timeout lev t) m) = t * 1000000"
    using assms(1) by (simp add: e duration_polls)
  show "polls (wait_for_button_or_timeout lev t m) = polls m + nat (t * 10)"
    by (simp add: eq)
  show "regs (wait_for_button_or_timeout lev t m) = regs m"
    by (simp add: eq)
next
  assume a: "k < nat (t * 10) \<and> \<not> bit (lev (polls m + k)) BUTTON
        \<and> (\<forall>j<k. bit (lev (polls m + j)) BUTTON)"
  then have eq: "wait_for_button_or_timeout lev t m =
     m\<lparr>polls := polls m + Suc k,
       trace := trace m @ concat (replicate k [Read GPLEV0, Usleep 100000])
                  @ [Read GPLEV0, Usleep 300000]\<rparr>"
    by (intro wait_for_button_or_timeout_press) (simp_all add: BUTTON_def)
  then show e: "emitted (wait_for_button_or_timeout lev t) m
        = concat (replicate k [Read GPLEV0, Usleep 100000]) @ [Read GPLEV0, Usleep 300000]"
    by (intro emitted_eq) simp
  show "count_list (emitted (wait_for_button_or_timeout lev t) m) (Read GPLEV0) = k + 1"
    by (simp add: e count_polls)
  show d: "duration (emitted (wait_for_button_or_timeout lev t) m) = int k * 100000 + 300000"
    by (simp add: e duration_append duration_polls) (simp add: duration_def)
  show "(duration (emitted (wait_for_button_or_timeout lev t) m) < t * 1000000)
          = (int k + 3 < t * 10)"
    unfolding d by linarith
  show "polls (wait_for_button_or_timeout lev t m) = polls m + k + 1"
    by (simp add: eq)
  show "regs (wait_for_button_or_timeout lev t m) = regs m"
    by (simp add: eq)
qed

text \<open>A timeout of 5 s with no press, and with a press first seen at the third poll.\<close>

theorem wait_for_button_or_timeout_polls_witness:
  "(0::int) \<le> 5 \<and> (5::int) * 10 \<le> 2147483647
   \<and> bit (never_pressed (polls blank + 0)) BUTTON
   \<and> int (count_list (emitted (wait_for_button_or_timeout never_pressed 5) blank) (Read GPLEV0)) = 50
   \<and> duration (emitted (wait_for_button_or_timeout never_pressed 5) blank) = 5000000
   \<and> (2::nat) < nat (5 * 10) \<and> \<not> bit (pressed_from 2 (polls blank + 2)) BUTTON
   \<and> bit (pressed_from 2 (polls blank + 0)) BUTTON
   \<and> bit (pressed_from 2 (polls blank + 1)) BUTTON
   \<and> emitted (wait_for_button_or_timeout (pressed_from 2) 5) blank
        = [Read GPLEV0, Usleep 100000, Read GPLEV0, Usleep 100000, Read GPLEV0, Usleep 300000]
   \<and> duration (emitted (wait_for_button_or_timeout (pressed_from 2) 5) blank) = 500000"
proof -
  have h1: "(0::int) \<le> 5" and h2: "(5::int) * 10 \<le> 2147483647" by simp_all
  have n: "\<forall>j < nat (5 * 10). bit (never_pressed (polls blank + j)) BUTTON"
    by (simp add: never_pressed_bit)
  have p: "(2::nat) < nat (5 * 10) \<and> \<not> bit (pressed_from 2 (polls blank + 2)) BUTTON
        \<and> (\<forall>j<2. bit (pressed_from 2 (polls blank + j)) BUTTON)"
    by (simp add: pressed_from_bit blank_def)
  show ?thesis
    using wait_for_button_or_timeout_polls [OF h1 h2, of never_pressed blank 0] n
          wait_for_button_or_timeout_polls [OF h1 h2, of "pressed_from 2" blank 2] p
    by (simp add: numeral_2_eq_2 count_polls duration_polls never_pressed_bit pressed_from_bit
          blank_def)
       (simp add: duration_def)
qed

text \<open>
  Claim C3 as stated says that a press makes the wait return after the time elapsed so
  far plus 0.3 s rather than after the full timeout. With a timeout of 5 s and a press
  first seen at the last poll, the wait makes all 50 polls and lasts 5.2 s, longer than
  the 5 s of a wait that sees no press.
\<close>

theorem late_press_not_shorter:
  "count_list (emitted (wait_for_button_or_timeout (pressed_from 49) 5) blank) (Read GPLEV0) = 50
   \<and> duration (emitted (wait_for_button_or_timeout (pressed_from 49) 5) blank) = 5200000
   \<and> duration (emitted (wait_for_button_or_timeout never_pressed 5) blank) = 5000000
   \<and> \<not> duration (emitted (wait_for_button_or_timeout (pressed_from 49) 5) blank)
         < duration (emitted (wait_for_button_or_timeout never_pressed 5) blank)"
proof -
  have k: "49 < nat (5 * 10)" "\<not> bit (pressed_from 49 (polls blank + 49)) BUTTON"
    "\<forall>j<49. bit (pressed_from 49 (polls blank + j)) BUTTON"
    by (simp_all add: pressed_from_bit blank_def)
  have n: "\<forall>j < nat (5 * 10). bit (never_pressed (polls blank + j)) BUTTON"
    by (simp add: never_pressed_bit)
  have c: "count_list (emitted (wait_for_button_or_timeout (pressed_from 49) 5) blank)
      (Read GPLEV0) = 50"
    by (simp add: emitted_wait_press [OF k] count_polls)
  have p: "duration (emitted (wait_for_button_or_timeout (pressed_from 49) 5) blank) = 5200000"
    by (simp add: duration_wait_press [OF k])
  have t: "duration (emitted (wait_for_button_or_timeout never_pressed 5) blank) = 5000000"
    using duration_wait_timeout [OF _ n] by simp
  from c p t show ?thesis by simp
qed

subsection \<open>The phases\<close>

lemma trace_phase1:
  "trace (phase1 m) = trace m @
     [Write GPSET0 PIN10_MASK, Write GPCLR0 PIN11_MASK, Write GPCLR0 PIN13_MASK, Sleep 3]"
  by (simp add: phase1_def prim_defs Let_def RED_DURATION_def)

lemma trace_phase2:
  "trace (phase2 m) = trace m @
     [Write GPSET0 PIN10_MASK, Write GPSET0 PIN11_MASK, Write GPCLR0 PIN13_MASK, Sleep 2]"
  by (simp add: phase2_def prim_defs Let_def RED_YELLOW_DURATION_def)

lemma trace_phase3:
  "trace (phase3 m) = trace m @
     [Write GPCLR0 PIN10_MASK, Write GPCLR0 PIN11_MASK, Write GPSET0 PIN13_MASK, Sleep 5]"
  by (simp add: phase3_def prim_defs Let_def GREEN_DURATION_def)

lemma trace_phase5:
  "trace (phase5 m) = trace m @
     [Write GPCLR0 PIN10_MASK, Write GPCLR0 PIN11_MASK, Write GPSET0 PIN13_MASK, Sleep 2]"
  by (simp add: phase5_def prim_defs Let_def)

lemma trace_phase7:
  "trace (phase7 m) = trace m @
     [Write GPSET0 PIN10_MASK, Write GPCLR0 PIN11_MASK, Write GPCLR0 PIN13_MASK, Sleep 3]"
  by (simp add: phase7_def prim_defs Let_def RED_DURATION_def)

lemma polls_phases:
  "polls (phase1 m) = polls m" "polls (phase2 m) = polls m" "polls (phase3 m) = polls m"
  by (simp_all add: phase1_def phase2_def phase3_def prim_defs Let_def)

lemma trace_blink_loop:
  "trace (blink_loop 0 m) = trace m @
     [Write GPSET0 PIN11_MASK, Usleep 500000, Write GPCLR0 PIN11_MASK, Usleep 500000,
      Write GPSET0 PIN11_MASK, Usleep 500000, Write GPCLR0 PIN11_MASK, Usleep 500000,
      Write GPSET0 PIN11_MASK, Usleep 500000, Write GPCLR0 PIN11_MASK, Usleep 500000]"
  by (simp add: blink_loop.simps YELLOW_BLINK_COUNT_def YELLOW_BLINK_DELAY_def prim_defs Let_def)

lemma trace_phase6:
  "trace (phase6 m) = trace m @
     [Write GPCLR0 PIN10_MASK, Write GPCLR0 PIN13_MASK,
      Write GPSET0 PIN11_MASK, Usleep 500000, Write GPCLR0 PIN11_MASK, Usleep 500000,
      Write GPSET0 PIN11_MASK, Usleep 500000, Write GPCLR0 PIN11_MASK, Usleep 500000,
      Write GPSET0 PIN11_MASK, Usleep 500000, Write GPCLR0 PIN11_MASK, Usleep 500000]"
  by (simp add: phase6_def trace_blink_loop Let_def) (simp add: prim_defs)

lemma trace_wait:
  "trace (wait_for_button_or_timeout lev t m)
     = trace m @ emitted (wait_for_button_or_timeout lev t) m"
  using wait_loop_cases [of lev "t * 10" 0 m]
  by (auto simp add: wait_for_button_or_timeout_def emitted_def)

lemma emitted_wait_cases:
  "emitted (wait_for_button_or_timeout lev t) m
      = concat (replicate (nat (t * 10)) [Read GPLEV0, Usleep 100000])
   \<or> (\<exists>k < nat (t * 10). emitted (wait_for_button_or_timeout lev t) m
      = concat (replicate k [Read GPLEV0, Usleep 100000]) @ [Read GPLEV0, Usleep 300000])"
  using wait_loop_cases [of lev "t * 10" 0 m]
  by (auto simp add: wait_for_button_or_timeout_def emitted_def)

lemma trace_phase4:
  "trace (phase4 lev m) = trace m @
     [Write GPCLR0 PIN10_MASK, Write GPCLR0 PIN11_MASK, Write GPSET0 PIN13_MASK]
     @ emitted (wait_for_button_or_timeout lev 5)
         (reg_write GPSET0 PIN13_MASK
           (reg_write GPCLR0 PIN11_MASK (reg_write GPCLR0 PIN10_MASK m)))"
  by (simp add: phase4_def Let_def trace_wait) (simp add: prim_defs)

lemmas trace_phases =
  trace_phase1 trace_phase2 trace_phase3 trace_phase4 trace_phase5 trace_phase6 trace_phase7

lemma trace_traffic_light_sequence:
  "trace (traffic_light_sequence lev m) = trace m @
     [Write GPSET0 PIN10_MASK, Write GPCLR0 PIN11_MASK, Write GPCLR0 PIN13_MASK, Sleep 3,
      Write GPSET0 PIN10_MASK, Write GPSET0 PIN11_MASK, Write GPCLR0 PIN13_MASK, Sleep 2,
      Write GPCLR0 PIN10_MASK, Write GPCLR0 PIN11_MASK, Write GPSET0 PIN13_MASK, Sleep 5,
      Write GPCLR0 PIN10_MASK, Write GPCLR0 PIN11_MASK, Write GPSET0 PIN13_MASK]
     @ emitted (wait_for_button_or_timeout lev 5) (at_button_wait m)
     @ [Write GPCLR0 PIN10_MASK, Write GPCLR0 PIN11_MASK, Write GPSET0 PIN13_MASK, Sleep 2,
        Write GPCLR0 PIN10_MASK, Write GPCLR0 PIN13_MASK,
        Write GPSET0 PIN11_MASK, Usleep 500000, Write GPCLR0 PIN11_MASK, Usleep 500000,
        Write GPSET0 PIN11_MASK, Usleep 500000, Write GPCLR0 PIN11_MASK, Usleep 500000,
        Write GPSET0 PIN11_MASK, Usleep 500000, Write GPCLR0 PIN11_MASK, Usleep 500000,
        Write GPSET0 PIN10_MASK, Write GPCLR0 PIN11_MASK, Write GPCLR0 PIN13_MASK, Sleep 3]"
  by (simp add: traffic_light_sequence_def Let_def trace_phases at_button_wait_def)

subsection \<open>Pin levels\<close>

lemma bit_PIN10_MASK: "bit PIN10_MASK n \<longleftrightarrow> n = 10"
proof -
  have h: "PIN10_MASK = push_bit 10 1" by (simp add: PIN10_MASK_def)
  show ?thesis unfolding h
    by (auto simp only: bit_push_bit_iff bit_1_iff possible_bit_word) simp_all
qed

lemma bit_PIN11_MASK: "bit PIN11_MASK n \<longleftrightarrow> n = 11"
proof -
  have h: "PIN11_MASK = push_bit 11 1" by (simp add: PIN11_MASK_def)
  show ?thesis unfolding h
    by (auto simp only: bit_push_bit_iff bit_1_iff possible_bit_word) simp_all
qed

lemma bit_PIN13_MASK: "bit PIN13_MASK n \<longleftrightarrow> n = 13"
proof -
  have h: "PIN13_MASK = push_bit 13 1" by (simp add: PIN13_MASK_def)
  show ?thesis unfolding h
    by (auto simp only: bit_push_bit_iff bit_1_iff possible_bit_word) simp_all
qed

lemmas bit_masks = bit_PIN10_MASK bit_PIN11_MASK bit_PIN13_MASK

lemma bit_hw_step:
  "bit (hw_step p (Write off v)) n =
     (if off = GPSET0 then bit p n \<or> bit v n
      else if off = GPCLR0 then bit p n \<and> \<not> bit v n
      else bit p n)"
  by (auto simp add: bit_or_iff bit_and_iff bit_not_iff dest: bit_imp_le_length)

lemma pin_levels_append: "pin_levels p (xs @ ys) = pin_levels (pin_levels p xs) ys"
  by (simp add: pin_levels_def)

lemma pin_levels_snoc: "pin_levels p (xs @ [e]) = hw_step (pin_levels p xs) e"
  by (simp add: pin_levels_def)

text \<open>
  Claim C6. Phase 6 first writes the red and the green mask to the clear register, then
  three times: yellow set, 0.5 s, yellow clear, 0.5 s. That is six writes to the yellow
  bit, three set and three clear, with 0.5 s between consecutive ones, and whatever
  the pin levels were before, yellow (like red and green) is low when the phase ends.
\<close>

theorem phase6_blinks_yellow:
  "emitted phase6 m =
     [Write GPCLR0 PIN10_MASK, Write GPCLR0 PIN13_MASK,
      Write GPSET0 PIN11_MASK, Usleep 500000, Write GPCLR0 PIN11_MASK, Usleep 500000,
      Write GPSET0 PIN11_MASK, Usleep 500000, Write GPCLR0 PIN11_MASK, Usleep 500000,
      Write GPSET0 PIN11_MASK, Usleep 500000, Write GPCLR0 PIN11_MASK, Usleep 500000]
   \<and> count_list (emitted phase6 m) (Write GPSET0 PIN11_MASK) = 3
   \<and> count_list (emitted phase6 m) (Write GPCLR0 PIN11_MASK) = 3
   \<and> \<not> bit (pin_levels p (emitted phase6 m)) YELLOW_LED
   \<and> \<not> bit (pin_levels p (emitted phase6 m)) RED_LED
   \<and> \<not> bit (pin_levels p (emitted phase6 m)) GREEN_LED"
proof -
  have e: "emitted phase6 m =
     [Write GPCLR0 PIN10_MASK, Write GPCLR0 PIN13_MASK,
      Write GPSET0 PIN11_MASK, Usleep 500000, Write GPCLR0 PIN11_MASK, Usleep 500000,
      Write GPSET0 PIN11_MASK, Usleep 500000, Write GPCLR0 PIN11_MASK, Usleep 500000,
      Write GPSET0 PIN11_MASK, Usleep 500000, Write GPCLR0 PIN11_MASK, Usleep 500000]"
    by (rule emitted_eq) (rule trace_phase6)
  have c1: "count_list (emitted phase6 m) (Write GPSET0 PIN11_MASK) = 3"
    unfolding e by (simp add: offset_defs mask_defs)
  have c2: "count_list (emitted phase6 m) (Write GPCLR0 PIN11_MASK) = 3"
    unfolding e by (simp add: offset_defs mask_defs)
  have b: "\<not> bit (pin_levels p (emitted phase6 m)) YELLOW_LED"
     "\<not> bit (pin_levels p (emitted phase6 m)) RED_LED"
     "\<not> bit (pin_levels p (emitted phase6 m)) GREEN_LED"
    unfolding e pin_levels_def pin_defs
    by (simp_all add: bit_hw_step bit_masks offset_defs del: hw_step.simps(1))
  from e c1 c2 b show ?thesis by blast
qed


subsection \<open>Elapsed time\<close>

lemma duration_wait_bounds:
  "300000 \<le> duration (emitted (wait_for_button_or_timeout lev 5) m)
   \<and> duration (emitted (wait_for_button_or_timeout lev 5) m) \<le> 5200000"
  using emitted_wait_cases [of lev 5 m]
proof (elim disjE exE conjE)
  assume "emitted (wait_for_button_or_timeout lev 5) m
      = concat (replicate (nat (5 * 10)) [Read GPLEV0, Usleep 100000])"
  then show ?thesis by (simp add: duration_polls)
next
  fix k assume "k < nat (5 * 10)"
    and "emitted (wait_for_button_or_timeout lev 5) m
      = concat (replicate k [Read GPLEV0, Usleep 100000]) @ [Read GPLEV0, Usleep 300000]"
  then show ?thesis by (simp add: duration_append duration_polls) (simp add: duration_def)
qed

lemma polls_at_button_wait: "polls (at_button_wait m) = polls m"
  by (simp add: at_button_wait_def polls_phases reg_write_def)

lemma duration_traffic_light_sequence:
  "duration (emitted (traffic_light_sequence lev) m)
     = 18000000 + duration (emitted (wait_for_button_or_timeout lev 5) (at_button_wait m))"
proof -
  have "emitted (traffic_light_sequence lev) m =
     [Write GPSET0 PIN10_MASK, Write GPCLR0 PIN11_MASK, Write GPCLR0 PIN13_MASK, Sleep 3,
      Write GPSET0 PIN10_MASK, Write GPSET0 PIN11_MASK, Write GPCLR0 PIN13_MASK, Sleep 2,
      Write GPCLR0 PIN10_MASK, Write GPCLR0 PIN11_MASK, Write GPSET0 PIN13_MASK, Sleep 5,
      Write GPCLR0 PIN10_MASK, Write GPCLR0 PIN11_MASK, Write GPSET0 PIN13_MASK]
     @ emitted (wait_for_button_or_timeout lev 5) (at_button_wait m)
     @ [Write GPCLR0 PIN10_MASK, Write GPCLR0 PIN11_MASK, Write GPSET0 PIN13_MASK, Sleep 2,
        Write GPCLR0 PIN10_MASK, Write GPCLR0 PIN13_MASK,
        Write GPSET0 PIN11_MASK, Usleep 500000, Write GPCLR0 PIN11_MASK, Usleep 500000,
        Write GPSET0 PIN11_MASK, Usleep 500000, Write GPCLR0 PIN11_MASK, Usleep 500000,
        Write GPSET0 PIN11_MASK, Usleep 500000, Write GPCLR0 PIN11_MASK, Usleep 500000,
        Write GPSET0 PIN10_MASK, Write GPCLR0 PIN11_MASK, Write GPCLR0 PIN13_MASK, Sleep 3]"
    by (rule emitted_eq) (rule trace_traffic_light_sequence)
  then show ?thesis
    by (simp add: duration_append) (simp add: duration_def)
qed

text \<open>
  Claim C2, amended. In every run of the sequence, for every pattern of button inputs,
  the time slept outside the button wait is 3 + 2 + 5 + 2 + 3 \<times> (0.5 + 0.5) + 3 = 18
  seconds. The button wait adds exactly 5 seconds when none of its 50 polls sees a
  press, and 0.1 s for each earlier poll plus the 0.3 s settle delay when the press is
  first seen at poll \<open>k\<close> (counting from 0, \<open>k < 50\<close>); in every case that is between
  0.3 and 5.2 seconds. The polls of the wait are numbered from the reads made before
  the sequence started.
\<close>

theorem sequence_elapsed_time:
  "duration (emitted (traffic_light_sequence lev) m)
     = 18000000 + duration (emitted (wait_for_button_or_timeout lev 5) (at_button_wait m))
   \<and> 300000 \<le> duration (emitted (wait_for_button_or_timeout lev 5) (at_button_wait m))
   \<and> duration (emitted (wait_for_button_or_timeout lev 5) (at_button_wait m)) \<le> 5200000
   \<and> ((\<forall>j<50. bit (lev (polls m + j)) BUTTON) \<longrightarrow>
        duration (emitted (wait_for_button_or_timeout lev 5) (at_button_wait m)) = 5000000
        \<and> duration (emitted (traffic_light_sequence lev) m) = 23000000)
   \<and> (k < 50 \<and> \<not> bit (lev (polls m + k)) BUTTON \<and> (\<forall>j<k. bit (lev (polls m + j)) BUTTON) \<longrightarrow>
        duration (emitted (wait_for_button_or_timeout lev 5) (at_button_wait m))
          = int k * 100000 + 300000
        \<and> duration (emitted (traffic_light_sequence lev) m) = 18300000 + int k * 100000)"
proof (intro conjI impI)
  note s = duration_traffic_light_sequence [of lev m]
  show "duration (emitted (traffic_light_sequence lev) m)
     = 18000000 + duration (emitted (wait_for_button_or_timeout lev 5) (at_button_wait m))"
    by (rule s)
  show "300000 \<le> duration (emitted (wait_for_button_or_timeout lev 5) (at_button_wait m))"
    using duration_wait_bounds [of lev "at_button_wait m"] by (rule conjunct1)
  show "duration (emitted (wait_for_button_or_timeout lev 5) (at_button_wait m)) \<le> 5200000"
    using duration_wait_bounds [of lev "at_button_wait m"] by (rule conjunct2)
  {
    assume "\<forall>j<50. bit (lev (polls m + j)) BUTTON"
    then have "\<forall>j < nat (5 * 10). bit (lev (polls (at_button_wait m) + j)) BUTTON"
      by (simp add: polls_at_button_wait)
    from duration_wait_timeout [OF _ this]
    show w: "duration (emitted (wait_for_button_or_timeout lev 5) (at_button_wait m)) = 5000000"
      by simp
    show "duration (emitted (traffic_light_sequence lev) m) = 23000000"
      unfolding s w by simp
  }
  {
    assume a: "k < 50 \<and> \<not> bit (lev (polls m + k)) BUTTON
        \<and> (\<forall>j<k. bit (lev (polls m + j)) BUTTON)"
    then have h: "k < nat (5 * 10)" "\<not> bit (lev (polls (at_button_wait m) + k)) BUTTON"
      "\<forall>j<k. bit (lev (polls (at_button_wait m) + j)) BUTTON"
      by (simp_all add: polls_at_button_wait)
    show w: "duration (emitted (wait_for_button_or_timeout lev 5) (at_button_wait m))
          = int k * 100000 + 300000"
      by (rule duration_wait_press [OF h])
    show "duration (emitted (traffic_light_sequence lev) m) = 18300000 + int k * 100000"
      unfolding s w by simp
  }
qed

text \<open>
  Two runs from the blank state: the button is never pressed, and the press is first
  seen at the last poll.
\<close>

theorem sequence_elapsed_time_witness:
  "bit (never_pressed (polls blank + 0)) BUTTON
   \<and> duration (emitted (wait_for_button_or_timeout never_pressed 5) (at_button_wait blank))
       = 5000000
   \<and> duration (emitted (traffic_light_sequence never_pressed) blank) = 23000000
   \<and> (49::nat) < 50 \<and> \<not> bit (pressed_from 49 (polls blank + 49)) BUTTON
   \<and> bit (pressed_from 49 (polls blank + 48)) BUTTON
   \<and> duration (emitted (wait_for_button_or_timeout (pressed_from 49) 5) (at_button_wait blank))
       = 5200000
   \<and> duration (emitted (traffic_light_sequence (pressed_from 49)) blank) = 23200000"
proof -
  have n: "\<forall>j<50. bit (never_pressed (polls blank + j)) BUTTON"
    by (simp add: never_pressed_bit)
  have p: "(49::nat) < 50 \<and> \<not> bit (pressed_from 49 (polls blank + 49)) BUTTON
        \<and> (\<forall>j<49. bit (pressed_from 49 (polls blank + j)) BUTTON)"
    by (simp add: pressed_from_bit blank_def)
  note a = sequence_elapsed_time [of never_pressed blank 0]
  note b = sequence_elapsed_time [of "pressed_from 49" blank 49]
  from a n have a': "duration (emitted (wait_for_button_or_timeout never_pressed 5) (at_button_wait blank))
       = 5000000 \<and> duration (emitted (traffic_light_sequence never_pressed) blank) = 23000000"
    by blast
  from b p have b': "duration (emitted (wait_for_button_or_timeout (pressed_from 49) 5)
         (at_button_wait blank)) = int 49 * 100000 + 300000
       \<and> duration (emitted (traffic_light_sequence (pressed_from 49)) blank)
           = 18300000 + int 49 * 100000"
    by blast
  from a' b' show ?thesis
    by (simp add: never_pressed_bit pressed_from_bit blank_def)
qed

text \<open>
  Claim C2 as stated bounds the button wait by 5 seconds. When the press is first seen
  at the last poll (poll 49), the wait has slept 4.9 s and then sleeps the settle delay:
  5.2 seconds.
\<close>

theorem late_press_exceeds_timeout:
  "\<not> duration (emitted (wait_for_button_or_timeout (pressed_from 49) 5) (at_button_wait blank))
       \<le> 5000000"
proof -
  have pb: "polls (at_button_wait blank) = 0"
    by (simp add: polls_at_button_wait blank_def)
  have "wait_for_button_or_timeout (pressed_from 49) 5 (at_button_wait blank) =
     (at_button_wait blank)\<lparr>polls := polls (at_button_wait blank) + Suc 49,
       trace := trace (at_button_wait blank) @ concat (replicate 49 [Read GPLEV0, Usleep 100000])
                  @ [Read GPLEV0, Usleep 300000]\<rparr>"
    using pressed_from_bit [of 49]
    by (intro wait_for_button_or_timeout_press) (simp_all add: pb BUTTON_def)
  then have "emitted (wait_for_button_or_timeout (pressed_from 49) 5) (at_button_wait blank)
     = concat (replicate 49 [Read GPLEV0, Usleep 100000]) @ [Read GPLEV0, Usleep 300000]"
    by (intro emitted_eq) simp
  then have "duration (emitted (wait_for_button_or_timeout (pressed_from 49) 5) (at_button_wait blank))
     = 5200000"
    by (simp add: duration_append duration_polls) (simp add: duration_def)
  then show ?thesis by simp
qed

subsection \<open>The whole run\<close>

lemma writes_of_wait: "writes_of (emitted (wait_for_button_or_timeout lev t) m) = []"
  using emitted_wait_cases [of lev t m]
  by (auto simp add: writes_of_append writes_of_polls) (simp add: writes_of_def)

lemma pin_levels_passive: "writes_of es = [] \<Longrightarrow> pin_levels p es = p"
proof (induction es arbitrary: p)
  case Nil
  then show ?case by (simp add: pin_levels_def)
next
  case (Cons e es)
  then show ?case by (cases e) (simp_all add: pin_levels_def writes_of_def)
qed

lemma Write_in_writes_of: "Write off v \<in> set es \<Longrightarrow> Write off v \<in> set (writes_of es)"
  by (simp add: writes_of_def)

lemma Write_of_writes_of: "Write off v \<in> set (writes_of es) \<Longrightarrow> Write off v \<in> set es"
  by (simp add: writes_of_def)

lemma main_success:
  assumes "\<not> open_result e < 0" and "\<not> mmap_failed e"
  shows "main argc argv e =
     (0, reg_write GPCLR0 PIN13_MASK (reg_write GPCLR0 PIN11_MASK (reg_write GPCLR0 PIN10_MASK
           (traffic_light_sequence (levels e) (init_gpio (boot e))))))"
  using assms by (simp add: main_def setup_gpio_def Let_def)

lemma trace_main_success:
  assumes "\<not> open_result e < 0" and "\<not> mmap_failed e"
  shows "trace (snd (main argc argv e)) =
     emitted init_gpio (boot e)
     @ emitted (traffic_light_sequence (levels e)) (init_gpio (boot e))
     @ [Write GPCLR0 PIN10_MASK, Write GPCLR0 PIN11_MASK, Write GPCLR0 PIN13_MASK]"
proof -
  have i: "emitted init_gpio (boot e) = trace (init_gpio (boot e))"
    by (simp add: emitted_def boot_def)
  have "trace (traffic_light_sequence (levels e) (init_gpio (boot e)))
      = trace (init_gpio (boot e))
        @ emitted (traffic_light_sequence (levels e)) (init_gpio (boot e))"
    by (subst trace_traffic_light_sequence) (simp add: emitted_def trace_traffic_light_sequence)
  then show ?thesis
    by (simp add: main_success [OF assms] reg_write_def i)
qed

lemma writes_of_main_success:
  assumes "\<not> open_result e < 0" and "\<not> mmap_failed e"
  shows "writes_of (trace (snd (main argc argv e))) =
     [Write GPFSEL1 ((device e GPFSEL1 AND 0xFFFFF000) OR 0x249),
      Write GPFSEL2 (device e GPFSEL2 AND 0xFFE3FFFF),
      Write GPCLR0 PIN13_MASK, Write GPCLR0 PIN11_MASK, Write GPCLR0 PIN10_MASK,
      Write GPSET0 PIN10_MASK, Write GPCLR0 PIN11_MASK, Write GPCLR0 PIN13_MASK,
      Write GPSET0 PIN10_MASK, Write GPSET0 PIN11_MASK, Write GPCLR0 PIN13_MASK,
      Write GPCLR0 PIN10_MASK, Write GPCLR0 PIN11_MASK, Write GPSET0 PIN13_MASK,
      Write GPCLR0 PIN10_MASK, Write GPCLR0 PIN11_MASK, Write GPSET0 PIN13_MASK,
      Write GPCLR0 PIN10_MASK, Write GPCLR0 PIN11_MASK, Write GPSET0 PIN13_MASK,
      Write GPCLR0 PIN10_MASK, Write GPCLR0 PIN13_MASK,
      Write GPSET0 PIN11_MASK, Write GPCLR0 PIN11_MASK,
      Write GPSET0 PIN11_MASK, Write GPCLR0 PIN11_MASK,
      Write GPSET0 PIN11_MASK, Write GPCLR0 PIN11_MASK,
      Write GPSET0 PIN10_MASK, Write GPCLR0 PIN11_MASK, Write GPCLR0 PIN13_MASK,
      Write GPCLR0 PIN10_MASK, Write GPCLR0 PIN11_MASK, Write GPCLR0 PIN13_MASK]"
proof -
  have "trace (snd (main argc argv e)) =
     trace (traffic_light_sequence (levels e) (init_gpio (boot e)))
     @ [Write GPCLR0 PIN10_MASK, Write GPCLR0 PIN11_MASK, Write GPCLR0 PIN13_MASK]"
    by (simp add: main_success [OF assms] reg_write_def)
  then show ?thesis
    by (simp add: trace_traffic_light_sequence init_gpio_eq boot_def writes_of_def
          writes_of_wait [unfolded writes_of_def])
qed

text \<open>
  Claim C8. When the mapping succeeds, \<^verbatim>\<open>main\<close> returns 0 and its trace is the
  events of \<^verbatim>\<open>init_gpio\<close>, then those of one run of the sequence, then three writes
  that clear pins 10, 11 and 13. The register writes are the fixed list below: the
  writes of phase 1 are not made again after phase 7. Whatever the pin levels were
  when the program started, the three LED pins are low when it exits.
\<close>

theorem main_runs_sequence_once:
  assumes "\<not> open_result e < 0" and "\<not> mmap_failed e"
  shows "fst (main argc argv e) = 0
   \<and> trace (snd (main argc argv e)) =
       emitted init_gpio (boot e)
       @ emitted (traffic_light_sequence (levels e)) (init_gpio (boot e))
       @ [Write GPCLR0 PIN10_MASK, Write GPCLR0 PIN11_MASK, Write GPCLR0 PIN13_MASK]
   \<and> writes_of (trace (snd (main argc argv e))) =
     [Write GPFSEL1 ((device e GPFSEL1 AND 0xFFFFF000) OR 0x249),
      Write GPFSEL2 (device e GPFSEL2 AND 0xFFE3FFFF),
      Write GPCLR0 PIN13_MASK, Write GPCLR0 PIN11_MASK, Write GPCLR0 PIN10_MASK,
      Write GPSET0 PIN10_MASK, Write GPCLR0 PIN11_MASK, Write GPCLR0 PIN13_MASK,
      Write GPSET0 PIN10_MASK, Write GPSET0 PIN11_MASK, Write GPCLR0 PIN13_MASK,
      Write GPCLR0 PIN10_MASK, Write GPCLR0 PIN11_MASK, Write GPSET0 PIN13_MASK,
      Write GPCLR0 PIN10_MASK, Write GPCLR0 PIN11_MASK, Write GPSET0 PIN13_MASK,
      Write GPCLR0 PIN10_MASK, Write GPCLR0 PIN11_MASK, Write GPSET0 PIN13_MASK,
      Write GPCLR0 PIN10_MASK, Write GPCLR0 PIN13_MASK,
      Write GPSET0 PIN11_MASK, Write GPCLR0 PIN11_MASK,
      Write GPSET0 PIN11_MASK, Write GPCLR0 PIN11_MASK,
      Write GPSET0 PIN11_MASK, Write GPCLR0 PIN11_MASK,
      Write GPSET0 PIN10_MASK, Write GPCLR0 PIN11_MASK, Write GPCLR0 PIN13_MASK,
      Write GPCLR0 PIN10_MASK, Write GPCLR0 PIN11_MASK, Write GPCLR0 PIN13_MASK]
   \<and> \<not> bit (pin_levels p (trace (snd (main argc argv e)))) RED_LED
   \<and> \<not> bit (pin_levels p (trace (snd (main argc argv e)))) YELLOW_LED
   \<and> \<not> bit (pin_levels p (trace (snd (main argc argv e)))) GREEN_LED"
proof -
  have x: "fst (main argc argv e) = 0"
    by (simp add: main_success [OF assms])
  note t = trace_main_success [OF assms, of argc argv]
  note w = writes_of_main_success [OF assms, of argc argv]
  have b: "\<not> bit (pin_levels p (trace (snd (main argc argv e)))) RED_LED"
    "\<not> bit (pin_levels p (trace (snd (main argc argv e)))) YELLOW_LED"
    "\<not> bit (pin_levels p (trace (snd (main argc argv e)))) GREEN_LED"
    unfolding t pin_defs
    by (simp_all add: pin_levels_def bit_hw_step bit_masks offset_defs del: hw_step.simps(1))
  from x t w b show ?thesis by blast
qed

text \<open>A run with a successful mapping and a button that is never pressed.\<close>

theorem main_runs_sequence_once_witness:
  "\<not> open_result (env_ok never_pressed) < 0 \<and> \<not> mmap_failed (env_ok never_pressed)
   \<and> fst (main 1 [''traffic_lights''] (env_ok never_pressed)) = 0
   \<and> count_list (writes_of (trace (snd (main 1 [''traffic_lights''] (env_ok never_pressed)))))
        (Write GPSET0 PIN13_MASK) = 3
   \<and> \<not> bit (pin_levels 0 (trace (snd (main 1 [''traffic_lights''] (env_ok never_pressed))))) RED_LED
   \<and> \<not> bit (pin_levels 0 (trace (snd (main 1 [''traffic_lights''] (env_ok never_pressed))))) YELLOW_LED
   \<and> \<not> bit (pin_levels 0 (trace (snd (main 1 [''traffic_lights''] (env_ok never_pressed))))) GREEN_LED"
proof -
  have h1: "\<not> open_result (env_ok never_pressed) < 0"
    and h2: "\<not> mmap_failed (env_ok never_pressed)"
    by (simp_all add: env_ok_def)
  note r = main_runs_sequence_once [OF h1 h2, of 1 "[''traffic_lights'']" 0]
  note x = r [THEN conjunct1]
  note w = r [THEN conjunct2, THEN conjunct2, THEN conjunct1]
  note b = r [THEN conjunct2, THEN conjunct2, THEN conjunct2]
  have c: "count_list (writes_of (trace (snd (main 1 [''traffic_lights''] (env_ok never_pressed)))))
        (Write GPSET0 PIN13_MASK) = 3"
    unfolding w by (simp add: offset_defs mask_defs)
  from h1 h2 x c b show ?thesis by blast
qed


subsection \<open>Values written to the set and clear registers\<close>

lemma writes_of_sequence:
  "writes_of (emitted (traffic_light_sequence lev) m) =
     [Write GPSET0 PIN10_MASK, Write GPCLR0 PIN11_MASK, Write GPCLR0 PIN13_MASK,
      Write GPSET0 PIN10_MASK, Write GPSET0 PIN11_MASK, Write GPCLR0 PIN13_MASK,
      Write GPCLR0 PIN10_MASK, Write GPCLR0 PIN11_MASK, Write GPSET0 PIN13_MASK,
      Write GPCLR0 PIN10_MASK, Write GPCLR0 PIN11_MASK, Write GPSET0 PIN13_MASK,
      Write GPCLR0 PIN10_MASK, Write GPCLR0 PIN11_MASK, Write GPSET0 PIN13_MASK,
      Write GPCLR0 PIN10_MASK, Write GPCLR0 PIN13_MASK,
      Write GPSET0 PIN11_MASK, Write GPCLR0 PIN11_MASK,
      Write GPSET0 PIN11_MASK, Write GPCLR0 PIN11_MASK,
      Write GPSET0 PIN11_MASK, Write GPCLR0 PIN11_MASK,
      Write GPSET0 PIN10_MASK, Write GPCLR0 PIN11_MASK, Write GPCLR0 PIN13_MASK]"
  by (simp add: emitted_def trace_traffic_light_sequence writes_of_def
        writes_of_wait [unfolded writes_of_def emitted_def])

lemma all_writes_sequence:
  "\<forall>x \<in> set (writes_of (emitted (traffic_light_sequence lev) m)).
     \<exists>off v. x = Write off v \<and> v \<in> {PIN10_MASK, PIN11_MASK, PIN13_MASK}"
  unfolding writes_of_sequence by simp

lemma led_writes_sequence:
  assumes "Write off v \<in> set (emitted (traffic_light_sequence lev) m)"
  shows "v \<in> {PIN10_MASK, PIN11_MASK, PIN13_MASK}"
proof -
  from assms have "Write off v \<in> set (writes_of (emitted (traffic_light_sequence lev) m))"
    by (rule Write_in_writes_of)
  with all_writes_sequence [of lev m] show ?thesis by blast
qed

lemma led_writes_init_gpio:
  assumes "Write off v \<in> set (emitted init_gpio m)" and "off = GPSET0 \<or> off = GPCLR0"
  shows "v \<in> {PIN10_MASK, PIN11_MASK, PIN13_MASK}"
proof -
  have "\<forall>x \<in> set (emitted init_gpio m). \<forall>off v. x = Write off v \<longrightarrow>
      off = GPSET0 \<or> off = GPCLR0 \<longrightarrow> v \<in> {PIN10_MASK, PIN11_MASK, PIN13_MASK}"
    by (simp add: emitted_def init_gpio_eq offset_defs)
  with assms show ?thesis by blast
qed

lemma all_writes_main:
  assumes "\<not> open_result e < 0" and "\<not> mmap_failed e"
  shows "\<forall>x \<in> set (writes_of (trace (snd (main argc argv e)))). \<forall>off v. x = Write off v \<longrightarrow>
      off = GPSET0 \<or> off = GPCLR0 \<longrightarrow> v \<in> {PIN10_MASK, PIN11_MASK, PIN13_MASK}"
  unfolding writes_of_main_success [OF assms] by (simp add: offset_defs)

lemma led_writes_main:
  assumes "Write off v \<in> set (trace (snd (main argc argv e)))"
    and "off = GPSET0 \<or> off = GPCLR0"
  shows "v \<in> {PIN10_MASK, PIN11_MASK, PIN13_MASK}"
proof (cases "open_result e < 0 \<or> mmap_failed e")
  case True
  then have "trace (snd (main argc argv e)) = []"
    by (auto simp add: main_def setup_gpio_def boot_def)
  with assms(1) show ?thesis by simp
next
  case False
  then have ok: "\<not> open_result e < 0" "\<not> mmap_failed e" by simp_all
  from assms(1) have "Write off v \<in> set (writes_of (trace (snd (main argc argv e))))"
    by (rule Write_in_writes_of)
  with all_writes_main [OF ok, of argc argv] assms(2) show ?thesis by blast
qed

lemma emitted_helpers:
  "emitted red_on m = [Write GPSET0 PIN10_MASK]"
  "emitted red_off m = [Write GPCLR0 PIN10_MASK]"
  "emitted yellow_on m = [Write GPSET0 PIN11_MASK]"
  "emitted yellow_off m = [Write GPCLR0 PIN11_MASK]"
  "emitted green_on m = [Write GPSET0 PIN13_MASK]"
  "emitted green_off m = [Write GPCLR0 PIN13_MASK]"
  by (simp_all add: emitted_def red_on_def red_off_def yellow_on_def yellow_off_def
        green_on_def green_off_def reg_write_def)

lemma led_mask_values:
  assumes "v \<in> {PIN10_MASK, PIN11_MASK, PIN13_MASK}"
  shows "(v = push_bit RED_LED 1 \<or> v = push_bit YELLOW_LED 1 \<or> v = push_bit GREEN_LED 1)
         \<and> \<not> bit v BUTTON"
  using assms by (auto simp add: pin_defs bit_masks) (simp_all add: mask_defs)

text \<open>
  Claim C10. Every word written to \<^verbatim>\<open>GPSET0\<close> or \<^verbatim>\<open>GPCLR0\<close>, by \<^verbatim>\<open>main\<close>
  (which covers \<^verbatim>\<open>init_gpio\<close>, the sequence and the final cleanup), by
  \<^verbatim>\<open>init_gpio\<close> or the sequence started in any state, or by one of the six LED
  helpers, is one of the three masks \<^verbatim>\<open>1 << 10\<close>, \<^verbatim>\<open>1 << 11\<close>, \<^verbatim>\<open>1 << 13\<close>; bit
  26 is never set in such a word.
\<close>

theorem only_led_masks_written:
  assumes "Write off v \<in> set (trace (snd (main argc argv e)))
             \<union> set (emitted init_gpio m) \<union> set (emitted (traffic_light_sequence lev) m)
             \<union> set (emitted red_on m) \<union> set (emitted red_off m)
             \<union> set (emitted yellow_on m) \<union> set (emitted yellow_off m)
             \<union> set (emitted green_on m) \<union> set (emitted green_off m)"
    and "off = GPSET0 \<or> off = GPCLR0"
  shows "(v = PIN10_MASK \<or> v = PIN11_MASK \<or> v = PIN13_MASK)
     \<and> (v = push_bit RED_LED 1 \<or> v = push_bit YELLOW_LED 1 \<or> v = push_bit GREEN_LED 1)
     \<and> \<not> bit v BUTTON"
proof -
  from assms(1) consider
      "Write off v \<in> set (trace (snd (main argc argv e)))"
    | "Write off v \<in> set (emitted init_gpio m)"
    | "Write off v \<in> set (emitted (traffic_light_sequence lev) m)"
    | "Write off v \<in> set (emitted red_on m) \<union> set (emitted red_off m)
             \<union> set (emitted yellow_on m) \<union> set (emitted yellow_off m)
             \<union> set (emitted green_on m) \<union> set (emitted green_off m)"
    by blast
  then have "v \<in> {PIN10_MASK, PIN11_MASK, PIN13_MASK}"
  proof cases
    case 1
    then show ?thesis using assms(2) by (rule led_writes_main)
  next
    case 2
    then show ?thesis using assms(2) by (rule led_writes_init_gpio)
  next
    case 3
    then show ?thesis by (rule led_writes_sequence)
  next
    case 4
    then show ?thesis by (auto simp add: emitted_helpers)
  qed
  with led_mask_values [of v] show ?thesis by blast
qed

text \<open>The write that switches green on, in a run of \<^verbatim>\<open>main\<close>.\<close>

theorem only_led_masks_written_witness:
  "Write GPSET0 PIN13_MASK \<in> set (trace (snd (main 1 [''traffic_lights''] (env_ok never_pressed))))
   \<and> (PIN13_MASK = PIN10_MASK \<or> PIN13_MASK = PIN11_MASK \<or> PIN13_MASK = PIN13_MASK)
   \<and> (PIN13_MASK = push_bit RED_LED 1 \<or> PIN13_MASK = push_bit YELLOW_LED 1
        \<or> PIN13_MASK = push_bit GREEN_LED 1)
   \<and> \<not> bit PIN13_MASK BUTTON"
proof -
  have ok: "\<not> open_result (env_ok never_pressed) < 0" "\<not> mmap_failed (env_ok never_pressed)"
    by (simp_all add: env_ok_def)
  have "Write GPSET0 PIN13_MASK
      \<in> set (writes_of (trace (snd (main 1 [''traffic_lights''] (env_ok never_pressed)))))"
    unfolding writes_of_main_success [OF ok] by simp
  then have h: "Write GPSET0 PIN13_MASK
      \<in> set (trace (snd (main 1 [''traffic_lights''] (env_ok never_pressed))))"
    by (rule Write_of_writes_of)
  then have h1: "Write GPSET0 PIN13_MASK
      \<in> set (trace (snd (main 1 [''traffic_lights''] (env_ok never_pressed))))
         \<union> set (emitted init_gpio blank)
         \<union> set (emitted (traffic_light_sequence never_pressed) blank)
         \<union> set (emitted red_on blank) \<union> set (emitted red_off blank)
         \<union> set (emitted yellow_on blank) \<union> set (emitted yellow_off blank)
         \<union> set (emitted green_on blank) \<union> set (emitted green_off blank)"
    by blast
  have h2: "GPSET0 = GPSET0 \<or> GPSET0 = GPCLR0" by simp
  from only_led_masks_written [OF h1 h2] h show ?thesis by blast
qed


subsection \<open>LED combinations during the sequence\<close>

lemma bit_leds: "bit (leds p) n \<longleftrightarrow> bit p n \<and> (n = 10 \<or> n = 11 \<or> n = 13)"
  by (simp add: leds_def bit_and_iff bit_or_iff bit_masks)

lemma bit_documented:
  "bit (documented k) n \<longleftrightarrow>
     (k = 1 \<or> k = 2 \<or> k = 7) \<and> n = 10 \<or> (k = 2 \<or> k = 6) \<and> n = 11
     \<or> (k = 3 \<or> k = 4 \<or> k = 5) \<and> n = 13"
  by (simp add: documented_def bit_or_iff bit_masks)

lemma all_led_bits:
  "(\<forall>n<32. (n = 10 \<or> n = 11 \<or> n = 13) \<longrightarrow> P n) \<longleftrightarrow> P (10::nat) \<and> P 11 \<and> P 13"
proof
  assume a: "\<forall>n<32. (n = 10 \<or> n = 11 \<or> n = 13) \<longrightarrow> P n"
  from a [rule_format, of 10] a [rule_format, of 11] a [rule_format, of 13]
  show "P 10 \<and> P 11 \<and> P 13" by simp
next
  assume "P 10 \<and> P 11 \<and> P 13"
  then show "\<forall>n<32. (n = 10 \<or> n = 11 \<or> n = 13) \<longrightarrow> P n" by auto
qed

lemma at_most_bits:
  "at_most a p \<longleftrightarrow>
     (bit p 10 \<longrightarrow> bit a 10) \<and> (bit p 11 \<longrightarrow> bit a 11) \<and> (bit p 13 \<longrightarrow> bit a 13)"
proof -
  have "at_most a p \<longleftrightarrow> (\<forall>n<32. bit (leds p) n \<longrightarrow> bit a n)"
    by (simp add: at_most_def bit_eq_iff bit_and_iff bit_not_iff)
  also have "\<dots> \<longleftrightarrow> (\<forall>n<32. (n = 10 \<or> n = 11 \<or> n = 13) \<longrightarrow> (bit p n \<longrightarrow> bit a n))"
    unfolding bit_leds by blast
  finally show ?thesis unfolding all_led_bits .
qed

lemma leds_documented:
  "leds p = documented k \<longleftrightarrow>
     bit p 10 = bit (documented k) 10 \<and> bit p 11 = bit (documented k) 11
     \<and> bit p 13 = bit (documented k) 13"
proof -
  have d: "bit (documented k) n \<Longrightarrow> n = 10 \<or> n = 11 \<or> n = 13" for n
    unfolding bit_documented by blast
  have "leds p = documented k \<longleftrightarrow> (\<forall>n<32. bit (leds p) n = bit (documented k) n)"
    by (simp add: bit_eq_iff)
  also have "\<dots> \<longleftrightarrow> (\<forall>n<32. (n = 10 \<or> n = 11 \<or> n = 13) \<longrightarrow> bit p n = bit (documented k) n)"
    unfolding bit_leds using d by blast
  finally show ?thesis unfolding all_led_bits .
qed

lemma emitted_phases:
  "emitted phase1 m =
     [Write GPSET0 PIN10_MASK, Write GPCLR0 PIN11_MASK, Write GPCLR0 PIN13_MASK, Sleep 3]"
  "emitted phase2 m =
     [Write GPSET0 PIN10_MASK, Write GPSET0 PIN11_MASK, Write GPCLR0 PIN13_MASK, Sleep 2]"
  "emitted phase3 m =
     [Write GPCLR0 PIN10_MASK, Write GPCLR0 PIN11_MASK, Write GPSET0 PIN13_MASK, Sleep 5]"
  "emitted (phase4 lev) m =
     [Write GPCLR0 PIN10_MASK, Write GPCLR0 PIN11_MASK, Write GPSET0 PIN13_MASK]
     @ emitted (wait_for_button_or_timeout lev 5)
         (reg_write GPSET0 PIN13_MASK
           (reg_write GPCLR0 PIN11_MASK (reg_write GPCLR0 PIN10_MASK m)))"
  "emitted phase5 m =
     [Write GPCLR0 PIN10_MASK, Write GPCLR0 PIN11_MASK, Write GPSET0 PIN13_MASK, Sleep 2]"
  "emitted phase6 m =
     [Write GPCLR0 PIN10_MASK, Write GPCLR0 PIN13_MASK,
      Write GPSET0 PIN11_MASK, Usleep 500000, Write GPCLR0 PIN11_MASK, Usleep 500000,
      Write GPSET0 PIN11_MASK, Usleep 500000, Write GPCLR0 PIN11_MASK, Usleep 500000,
      Write GPSET0 PIN11_MASK, Usleep 500000, Write GPCLR0 PIN11_MASK, Usleep 500000]"
  "emitted phase7 m =
     [Write GPSET0 PIN10_MASK, Write GPCLR0 PIN11_MASK, Write GPCLR0 PIN13_MASK, Sleep 3]"
  by (rule emitted_eq, rule trace_phases)+

lemma tagged_eq:
  "tagged lev m =
     [(1, Write GPSET0 PIN10_MASK), (1, Write GPCLR0 PIN11_MASK),
      (1, Write GPCLR0 PIN13_MASK), (1, Sleep 3), (2, Write GPSET0 PIN10_MASK),
      (2, Write GPSET0 PIN11_MASK), (2, Write GPCLR0 PIN13_MASK), (2, Sleep 2),
      (3, Write GPCLR0 PIN10_MASK), (3, Write GPCLR0 PIN11_MASK),
      (3, Write GPSET0 PIN13_MASK), (3, Sleep 5), (4, Write GPCLR0 PIN10_MASK),
      (4, Write GPCLR0 PIN11_MASK), (4, Write GPSET0 PIN13_MASK)]
     @ map (Pair 4) (emitted (wait_for_button_or_timeout lev 5) (at_button_wait m))
     @
     [(5, Write GPCLR0 PIN10_MASK), (5, Write GPCLR0 PIN11_MASK),
      (5, Write GPSET0 PIN13_MASK), (5, Sleep 2), (6, Write GPCLR0 PIN10_MASK),
      (6, Write GPCLR0 PIN13_MASK), (6, Write GPSET0 PIN11_MASK),
      (6, Usleep 500000), (6, Write GPCLR0 PIN11_MASK), (6, Usleep 500000),
      (6, Write GPSET0 PIN11_MASK), (6, Usleep 500000),
      (6, Write GPCLR0 PIN11_MASK), (6, Usleep 500000),
      (6, Write GPSET0 PIN11_MASK), (6, Usleep 500000),
      (6, Write GPCLR0 PIN11_MASK), (6, Usleep 500000),
      (7, Write GPSET0 PIN10_MASK), (7, Write GPCLR0 PIN11_MASK),
      (7, Write GPCLR0 PIN13_MASK), (7, Sleep 3)]"
  by (simp add: tagged_def phase_events_def Let_def emitted_phases at_button_wait_def)

lemma map_snd_tagged: "map snd (tagged lev m) = emitted (traffic_light_sequence lev) m"
  unfolding tagged_eq
  by (rule emitted_eq [symmetric]) (simp add: trace_traffic_light_sequence comp_def)

lemma annotate_append:
  "annotate p (xs @ ys) = annotate p xs @ annotate (pin_levels p (map snd xs)) ys"
  by (induction p xs rule: annotate.induct) (simp_all add: pin_levels_def)

lemma annotate_passive:
  "writes_of es = [] \<Longrightarrow> annotate p (map (Pair k) es) = map (\<lambda>e. (k, e, p)) es"
proof (induction es)
  case Nil
  then show ?case by simp
next
  case (Cons e es)
  then show ?case by (cases e) (simp_all add: writes_of_def)
qed

lemma not_write_passive: "writes_of es = [] \<Longrightarrow> e \<in> set es \<Longrightarrow> \<not> is_write e"
  by (auto simp add: writes_of_def filter_empty_conv)

lemma map_fst_snd_annotate: "map (\<lambda>x. fst (snd x)) (annotate p xs) = map snd xs"
  by (induction p xs rule: annotate.induct) simp_all

text \<open>
  The timeline splits at the button wait: the events up to the three writes of phase 4,
  the polls and sleeps of the wait, during which the pins do not change, and the rest.
\<close>

lemma timeline_split:
  "timeline lev m p =
     annotate p
     [(1, Write GPSET0 PIN10_MASK), (1, Write GPCLR0 PIN11_MASK),
      (1, Write GPCLR0 PIN13_MASK), (1, Sleep 3), (2, Write GPSET0 PIN10_MASK),
      (2, Write GPSET0 PIN11_MASK), (2, Write GPCLR0 PIN13_MASK), (2, Sleep 2),
      (3, Write GPCLR0 PIN10_MASK), (3, Write GPCLR0 PIN11_MASK),
      (3, Write GPSET0 PIN13_MASK), (3, Sleep 5), (4, Write GPCLR0 PIN10_MASK),
      (4, Write GPCLR0 PIN11_MASK), (4, Write GPSET0 PIN13_MASK)]
     @ map (\<lambda>e. (4, e, pin_levels p
     [Write GPSET0 PIN10_MASK, Write GPCLR0 PIN11_MASK, Write GPCLR0 PIN13_MASK,
      Sleep 3, Write GPSET0 PIN10_MASK, Write GPSET0 PIN11_MASK,
      Write GPCLR0 PIN13_MASK, Sleep 2, Write GPCLR0 PIN10_MASK,
      Write GPCLR0 PIN11_MASK, Write GPSET0 PIN13_MASK, Sleep 5,
      Write GPCLR0 PIN10_MASK, Write GPCLR0 PIN11_MASK, Write GPSET0 PIN13_MASK]))
         (emitted (wait_for_button_or_timeout lev 5) (at_button_wait m))
     @ annotate (pin_levels p
     [Write GPSET0 PIN10_MASK, Write GPCLR0 PIN11_MASK, Write GPCLR0 PIN13_MASK,
      Sleep 3, Write GPSET0 PIN10_MASK, Write GPSET0 PIN11_MASK,
      Write GPCLR0 PIN13_MASK, Sleep 2, Write GPCLR0 PIN10_MASK,
      Write GPCLR0 PIN11_MASK, Write GPSET0 PIN13_MASK, Sleep 5,
      Write GPCLR0 PIN10_MASK, Write GPCLR0 PIN11_MASK, Write GPSET0 PIN13_MASK])
     [(5, Write GPCLR0 PIN10_MASK), (5, Write GPCLR0 PIN11_MASK),
      (5, Write GPSET0 PIN13_MASK), (5, Sleep 2), (6, Write GPCLR0 PIN10_MASK),
      (6, Write GPCLR0 PIN13_MASK), (6, Write GPSET0 PIN11_MASK),
      (6, Usleep 500000), (6, Write GPCLR0 PIN11_MASK), (6, Usleep 500000),
      (6, Write GPSET0 PIN11_MASK), (6, Usleep 500000),
      (6, Write GPCLR0 PIN11_MASK), (6, Usleep 500000),
      (6, Write GPSET0 PIN11_MASK), (6, Usleep 500000),
      (6, Write GPCLR0 PIN11_MASK), (6, Usleep 500000),
      (7, Write GPSET0 PIN10_MASK), (7, Write GPCLR0 PIN11_MASK),
      (7, Write GPCLR0 PIN13_MASK), (7, Sleep 3)]"
  unfolding timeline_def tagged_eq annotate_append
  by (simp only: annotate_passive [OF writes_of_wait] map_map comp_def snd_conv
        pin_levels_passive [OF writes_of_wait] pin_levels_append map_append list.map
        list.map_ident)

lemmas led_eval =
  annotate.simps list.pred_inject within_phase_or_previous.simps settled.simps
  red_green_exclusive.simps is_write.simps at_most_bits leds_documented bit_documented
  bit_hw_step hw_step.simps(2-4) bit_masks offset_defs pin_defs

lemma levels_at_wait:
  "\<not> bit (pin_levels p
     [Write GPSET0 PIN10_MASK, Write GPCLR0 PIN11_MASK, Write GPCLR0 PIN13_MASK,
      Sleep 3, Write GPSET0 PIN10_MASK, Write GPSET0 PIN11_MASK,
      Write GPCLR0 PIN13_MASK, Sleep 2, Write GPCLR0 PIN10_MASK,
      Write GPCLR0 PIN11_MASK, Write GPSET0 PIN13_MASK, Sleep 5,
      Write GPCLR0 PIN10_MASK, Write GPCLR0 PIN11_MASK, Write GPSET0 PIN13_MASK]) 10
   \<and> \<not> bit (pin_levels p
     [Write GPSET0 PIN10_MASK, Write GPCLR0 PIN11_MASK, Write GPCLR0 PIN13_MASK,
      Sleep 3, Write GPSET0 PIN10_MASK, Write GPSET0 PIN11_MASK,
      Write GPCLR0 PIN13_MASK, Sleep 2, Write GPCLR0 PIN10_MASK,
      Write GPCLR0 PIN11_MASK, Write GPSET0 PIN13_MASK, Sleep 5,
      Write GPCLR0 PIN10_MASK, Write GPCLR0 PIN11_MASK, Write GPSET0 PIN13_MASK]) 11
   \<and> bit (pin_levels p
     [Write GPSET0 PIN10_MASK, Write GPCLR0 PIN11_MASK, Write GPCLR0 PIN13_MASK,
      Sleep 3, Write GPSET0 PIN10_MASK, Write GPSET0 PIN11_MASK,
      Write GPCLR0 PIN13_MASK, Sleep 2, Write GPCLR0 PIN10_MASK,
      Write GPCLR0 PIN11_MASK, Write GPSET0 PIN13_MASK, Sleep 5,
      Write GPCLR0 PIN10_MASK, Write GPCLR0 PIN11_MASK, Write GPSET0 PIN13_MASK]) 13"
  by (simp add: pin_levels_def led_eval del: hw_step.simps(1))

lemma head_ok:
  assumes "\<not> bit p 10" and "\<not> bit p 11" and "\<not> bit p 13"
  shows "list_all within_phase_or_previous (annotate p
     [(1, Write GPSET0 PIN10_MASK), (1, Write GPCLR0 PIN11_MASK),
      (1, Write GPCLR0 PIN13_MASK), (1, Sleep 3), (2, Write GPSET0 PIN10_MASK),
      (2, Write GPSET0 PIN11_MASK), (2, Write GPCLR0 PIN13_MASK), (2, Sleep 2),
      (3, Write GPCLR0 PIN10_MASK), (3, Write GPCLR0 PIN11_MASK),
      (3, Write GPSET0 PIN13_MASK), (3, Sleep 5), (4, Write GPCLR0 PIN10_MASK),
      (4, Write GPCLR0 PIN11_MASK), (4, Write GPSET0 PIN13_MASK)])"
    and "list_all settled (annotate p
     [(1, Write GPSET0 PIN10_MASK), (1, Write GPCLR0 PIN11_MASK),
      (1, Write GPCLR0 PIN13_MASK), (1, Sleep 3), (2, Write GPSET0 PIN10_MASK),
      (2, Write GPSET0 PIN11_MASK), (2, Write GPCLR0 PIN13_MASK), (2, Sleep 2),
      (3, Write GPCLR0 PIN10_MASK), (3, Write GPCLR0 PIN11_MASK),
      (3, Write GPSET0 PIN13_MASK), (3, Sleep 5), (4, Write GPCLR0 PIN10_MASK),
      (4, Write GPCLR0 PIN11_MASK), (4, Write GPSET0 PIN13_MASK)])"
    and "list_all red_green_exclusive (annotate p
     [(1, Write GPSET0 PIN10_MASK), (1, Write GPCLR0 PIN11_MASK),
      (1, Write GPCLR0 PIN13_MASK), (1, Sleep 3), (2, Write GPSET0 PIN10_MASK),
      (2, Write GPSET0 PIN11_MASK), (2, Write GPCLR0 PIN13_MASK), (2, Sleep 2),
      (3, Write GPCLR0 PIN10_MASK), (3, Write GPCLR0 PIN11_MASK),
      (3, Write GPSET0 PIN13_MASK), (3, Sleep 5), (4, Write GPCLR0 PIN10_MASK),
      (4, Write GPCLR0 PIN11_MASK), (4, Write GPSET0 PIN13_MASK)])"
  using assms by (simp_all add: led_eval del: hw_step.simps(1))

lemma tail_ok:
  assumes "\<not> bit p 10" and "\<not> bit p 11" and "bit p 13"
  shows "list_all within_phase_or_previous (annotate p
     [(5, Write GPCLR0 PIN10_MASK), (5, Write GPCLR0 PIN11_MASK),
      (5, Write GPSET0 PIN13_MASK), (5, Sleep 2), (6, Write GPCLR0 PIN10_MASK),
      (6, Write GPCLR0 PIN13_MASK), (6, Write GPSET0 PIN11_MASK),
      (6, Usleep 500000), (6, Write GPCLR0 PIN11_MASK), (6, Usleep 500000),
      (6, Write GPSET0 PIN11_MASK), (6, Usleep 500000),
      (6, Write GPCLR0 PIN11_MASK), (6, Usleep 500000),
      (6, Write GPSET0 PIN11_MASK), (6, Usleep 500000),
      (6, Write GPCLR0 PIN11_MASK), (6, Usleep 500000),
      (7, Write GPSET0 PIN10_MASK), (7, Write GPCLR0 PIN11_MASK),
      (7, Write GPCLR0 PIN13_MASK), (7, Sleep 3)])"
    and "list_all settled (annotate p
     [(5, Write GPCLR0 PIN10_MASK), (5, Write GPCLR0 PIN11_MASK),
      (5, Write GPSET0 PIN13_MASK), (5, Sleep 2), (6, Write GPCLR0 PIN10_MASK),
      (6, Write GPCLR0 PIN13_MASK), (6, Write GPSET0 PIN11_MASK),
      (6, Usleep 500000), (6, Write GPCLR0 PIN11_MASK), (6, Usleep 500000),
      (6, Write GPSET0 PIN11_MASK), (6, Usleep 500000),
      (6, Write GPCLR0 PIN11_MASK), (6, Usleep 500000),
      (6, Write GPSET0 PIN11_MASK), (6, Usleep 500000),
      (6, Write GPCLR0 PIN11_MASK), (6, Usleep 500000),
      (7, Write GPSET0 PIN10_MASK), (7, Write GPCLR0 PIN11_MASK),
      (7, Write GPCLR0 PIN13_MASK), (7, Sleep 3)])"
    and "list_all red_green_exclusive (annotate p
     [(5, Write GPCLR0 PIN10_MASK), (5, Write GPCLR0 PIN11_MASK),
      (5, Write GPSET0 PIN13_MASK), (5, Sleep 2), (6, Write GPCLR0 PIN10_MASK),
      (6, Write GPCLR0 PIN13_MASK), (6, Write GPSET0 PIN11_MASK),
      (6, Usleep 500000), (6, Write GPCLR0 PIN11_MASK), (6, Usleep 500000),
      (6, Write GPSET0 PIN11_MASK), (6, Usleep 500000),
      (6, Write GPCLR0 PIN11_MASK), (6, Usleep 500000),
      (6, Write GPSET0 PIN11_MASK), (6, Usleep 500000),
      (6, Write GPCLR0 PIN11_MASK), (6, Usleep 500000),
      (7, Write GPSET0 PIN10_MASK), (7, Write GPCLR0 PIN11_MASK),
      (7, Write GPCLR0 PIN13_MASK), (7, Sleep 3)])"
  using assms by (simp_all add: led_eval del: hw_step.simps(1))

lemma wait_ok:
  assumes "\<not> bit p 10" and "\<not> bit p 11" and "bit p 13"
  shows "list_all within_phase_or_previous (map (\<lambda>e. (4, e, p)) es)"
    and "list_all settled (map (\<lambda>e. (4, e, p)) es)"
    and "list_all red_green_exclusive (map (\<lambda>e. (4, e, p)) es)"
  using assms by (simp_all add: list_all_iff led_eval)

lemma levels_after_init_gpio:
  "\<not> bit (pin_levels q (emitted init_gpio m)) 10
   \<and> \<not> bit (pin_levels q (emitted init_gpio m)) 11
   \<and> \<not> bit (pin_levels q (emitted init_gpio m)) 13"
  by (simp add: emitted_def init_gpio_eq pin_levels_def led_eval del: hw_step.simps(1))

text \<open>
  Claim C4, amended. The sequence starts after \<^verbatim>\<open>init_gpio\<close>, from any pin levels
  before it and for any button input. After every single event of the sequence, the LEDs
  that are high are within the documented combination of the phase the event belongs
  to, or within that of the phase just left: a phase is entered by separate writes to
  single pins. Whenever the program sleeps or polls, they are within the combination
  of the current phase, and equal to it in every phase but the blinking one. Red and
  green are never high together. The timeline lists exactly the events of the sequence.
\<close>

theorem led_combinations_by_phase:
  "list_all within_phase_or_previous
     (timeline lev (init_gpio m) (pin_levels q (emitted init_gpio m)))
   \<and> list_all settled
     (timeline lev (init_gpio m) (pin_levels q (emitted init_gpio m)))
   \<and> list_all red_green_exclusive
     (timeline lev (init_gpio m) (pin_levels q (emitted init_gpio m)))
   \<and> map (\<lambda>x. fst (snd x)) (timeline lev (init_gpio m) (pin_levels q (emitted init_gpio m)))
       = emitted (traffic_light_sequence lev) (init_gpio m)"
proof -
  let ?p = "pin_levels q (emitted init_gpio m)"
  note i = levels_after_init_gpio [of q m]
  note h = head_ok [OF i [THEN conjunct1] i [THEN conjunct2, THEN conjunct1]
                      i [THEN conjunct2, THEN conjunct2]]
  note l = levels_at_wait [of ?p]
  note w = wait_ok [OF l [THEN conjunct1] l [THEN conjunct2, THEN conjunct1]
                      l [THEN conjunct2, THEN conjunct2]]
  note t = tail_ok [OF l [THEN conjunct1] l [THEN conjunct2, THEN conjunct1]
                      l [THEN conjunct2, THEN conjunct2]]
  have a: "list_all within_phase_or_previous (timeline lev (init_gpio m) ?p)"
    by (simp only: timeline_split list_all_append h(1) w(1) t(1) simp_thms)
  have b: "list_all settled (timeline lev (init_gpio m) ?p)"
    by (simp only: timeline_split list_all_append h(2) w(2) t(2) simp_thms)
  have c: "list_all red_green_exclusive (timeline lev (init_gpio m) ?p)"
    by (simp only: timeline_split list_all_append h(3) w(3) t(3) simp_thms)
  have d: "map (\<lambda>x. fst (snd x)) (timeline lev (init_gpio m) ?p)
       = emitted (traffic_light_sequence lev) (init_gpio m)"
    by (simp add: timeline_def map_fst_snd_annotate map_snd_tagged)
  from a b c d show ?thesis by blast
qed


text \<open>
  Claim C4 as stated asks for the combination of the current phase after every write.
  The first write of phase 3 switches red off while yellow, lit in phase 2, is still
  high; phase 3 documents green only.
\<close>

theorem strict_phase_combination_fails:
  "\<not> list_all within_phase
       (timeline never_pressed (init_gpio blank) (pin_levels 0 (emitted init_gpio blank)))
   \<and> timeline never_pressed (init_gpio blank) (pin_levels 0 (emitted init_gpio blank)) ! 8
       = (3, Write GPCLR0 PIN10_MASK, PIN11_MASK)
   \<and> \<not> within_phase (3, Write GPCLR0 PIN10_MASK, PIN11_MASK)
   \<and> documented 3 = PIN13_MASK"
  by code_simp

text \<open>The same instant, in a run where the button is pressed at the third poll.\<close>

theorem led_combinations_by_phase_witness:
  "timeline (pressed_from 2) (init_gpio blank) (pin_levels 0 (emitted init_gpio blank)) ! 8
       = (3, Write GPCLR0 PIN10_MASK, PIN11_MASK)
   \<and> within_phase_or_previous (3, Write GPCLR0 PIN10_MASK, PIN11_MASK)
   \<and> settled (3, Write GPCLR0 PIN10_MASK, PIN11_MASK)
   \<and> red_green_exclusive (3, Write GPCLR0 PIN10_MASK, PIN11_MASK)"
proof -
  have n: "timeline (pressed_from 2) (init_gpio blank) (pin_levels 0 (emitted init_gpio blank)) ! 8
       = (3, Write GPCLR0 PIN10_MASK, PIN11_MASK)"
    and l: "8 < length (timeline (pressed_from 2) (init_gpio blank) (pin_levels 0 (emitted init_gpio blank)))"
    by code_simp+
  note t = led_combinations_by_phase [of "pressed_from 2" blank 0]
  from t have "\<forall>x \<in> set (timeline (pressed_from 2) (init_gpio blank) (pin_levels 0 (emitted init_gpio blank))).
     within_phase_or_previous x \<and> settled x \<and> red_green_exclusive x"
    by (simp add: list_all_iff)
  with l n show ?thesis by (metis nth_mem)
qed

end
